theory Spec2Isabelle
  imports Main "HOL-Library.Word" "HOL-Library.Signed_Division"
begin

unbundle bit_operations_syntax

section \<open>Data model of ax206vncclient.c\<close>

text \<open>
  C types: \<open>unsigned char\<close> is an 8-bit word, \<open>short\<close> a 16-bit word read with
  \<open>sint\<close>, \<open>unsigned long\<close> a 64-bit word (LP64). Values of type \<open>int\<close> that hold
  panel coordinates are unbounded integers; in every state that satisfies the session
  invariant below they stay far below \<open>2 ^ 31\<close>. Where the source converts between
  widths (the blit length, the bytes of a command) the conversion is written out on
  words.
\<close>

type_synonym byte = "8 word"

text \<open>\<open>typedef struct { unsigned char R, G, B, A; } RGBA\<close>\<close>

record RGBA =
  R :: byte
  G :: byte
  B :: byte
  A :: byte

subsection \<open>Pixel conversion: the macros \<open>_RGB565_0\<close> and \<open>_RGB565_1\<close>\<close>

text \<open>
  \<open>#define _RGB565_0(p) (( ((p.R) & 0xf8) ) | (((p.G) & 0xe0) >> 5))\<close> and
  \<open>#define _RGB565_1(p) (( ((p.G) & 0x1c) << 3 ) | (((p.B) & 0xf8) >> 3))\<close>.
  The operands are promoted to \<open>int\<close> (32 bits here) and the result is stored in an
  \<open>unsigned char\<close>.
\<close>

definition RGB565_0 :: "RGBA \<Rightarrow> byte" where
  "RGB565_0 p =
     ucast (((ucast (R p) :: 32 word) AND 0xf8) OR drop_bit 5 ((ucast (G p) :: 32 word) AND 0xe0))"

definition RGB565_1 :: "RGBA \<Rightarrow> byte" where
  "RGB565_1 p =
     ucast (push_bit 3 ((ucast (G p) :: 32 word) AND 0x1c) OR drop_bit 3 ((ucast (B p) :: 32 word) AND 0xf8))"

text \<open>
  The conversion as the specification words it, on bytes: byte 0 is the top five bits of
  R left in place, joined with the top three bits of G moved to the low three bits; byte 1
  is the next three bits of G (bits 4 to 2) moved to the high three bits, joined with the
  top five bits of B moved to the low five bits.
\<close>

definition convert_spec :: "byte \<Rightarrow> byte \<Rightarrow> byte \<Rightarrow> byte list" where
  "convert_spec r g b =
     [push_bit 3 (drop_bit 3 r) OR drop_bit 5 g,
      push_bit 5 (take_bit 3 (drop_bit 2 g)) OR drop_bit 3 b]"

subsection \<open>The USB bus as environment\<close>

text \<open>
  \<open>libusb_bulk_transfer\<close> is the only way the program talks to the panel. The panel's
  behaviour is a stream of replies, one per transfer the program issues: the return
  value of the call, the count stored through \<open>&transfered\<close>, and the bytes delivered
  into the buffer on an IN endpoint. Every transfer issued is appended to a trace.
\<close>

record usb_reply =
  r_ret :: int
  r_actual :: int
  r_data :: "byte list"

record usb_xfer =
  x_udev :: nat
  x_endpoint :: byte
  x_bytes :: "byte list"
  x_length :: int
  x_timeout :: nat

text \<open>\<open>struct dpf_context { libusb_device_handle *udev; unsigned int width, height; }\<close>\<close>

record DPFContext =
  udev :: nat
  width :: "32 word"
  height :: "32 word"

text \<open>What \<open>ErrorLog\<close>, \<open>DefaultLog\<close> and \<open>fprintf(stderr, ...)\<close> are called with.\<close>

datatype log_event =
    Err_out_of_bounds int int int int
  | Err_bulk_write
  | Err_bulk_read
  | Err_bulk_ack int int int
  | Err_invalid_reply
  | Err_reading_dimensions
  | Log_dimensions "32 word" "32 word"

text \<open>\<open>rfbClient\<close>: only the frame buffer is read by this program.\<close>

record rfbClient =
  frameBuffer :: "byte list"

subsection \<open>The program's global state\<close>

text \<open>
  The fields of the static struct \<open>dpf\<close>, the globals \<open>DROWS\<close> and \<open>DCOLS\<close>, the
  static arrays \<open>g_excmd\<close> (16 bytes), \<open>g_buf\<close> (31 bytes) and \<open>ansbuf\<close> (13 bytes,
  static inside \<open>wrap_scsi\<close>), then the panel's replies, the trace of transfers and the
  log. A \<open>NULL\<close> handle is \<open>None\<close>.
\<close>

record globals =
  lcdBuf :: "byte list"
  xferBuf :: "byte list"
  dpfh :: "DPFContext option"
  pwidth :: int
  pheight :: int
  minx :: int
  maxx :: int
  miny :: int
  maxy :: int
  backlight :: int
  DROWS :: int
  DCOLS :: int
  g_excmd :: "byte list"
  g_buf :: "byte list"
  ansbuf :: "byte list"
  device :: "nat \<Rightarrow> usb_reply"
  trace :: "usb_xfer list"
  logged :: "log_event list"

definition DPF_BPP :: int where "DPF_BPP = 2"
definition USBCMD_BLIT :: byte where "USBCMD_BLIT = 0x12"
definition DIR_IN :: int where "DIR_IN = 0"
definition DIR_OUT :: int where "DIR_OUT = 1"
definition ENDPT_OUT :: byte where "ENDPT_OUT = 1"
definition ENDPT_IN :: byte where "ENDPT_IN = 0x81"

text \<open>The string literal \<open>"USBS"\<close> with its terminating NUL.\<close>

definition USBS :: "byte list" where
  "USBS = [0x55, 0x53, 0x42, 0x53, 0]"

subsection \<open>Library calls\<close>

text \<open>
  \<open>libusb_bulk_transfer(dev, endpoint, buffer, length, &transfered, timeout)\<close>: takes the
  next reply of the panel. On an IN endpoint (bit 7 set) the delivered bytes, at most
  \<open>length\<close> of them, overwrite the start of the buffer. Returns the return value, the
  transferred count and the buffer.
\<close>

definition libusb_bulk_transfer ::
  "nat \<Rightarrow> byte \<Rightarrow> byte list \<Rightarrow> int \<Rightarrow> nat \<Rightarrow> globals \<Rightarrow> (int \<times> int \<times> byte list) \<times> globals" where
  "libusb_bulk_transfer dev ep buf len tmo s =
     (let rep = device s (length (trace s));
          got = take (nat len) (r_data rep);
          buf' = (if bit ep 7 then take (length buf) (got @ drop (length got) buf) else buf);
          x = \<lparr>x_udev = dev, x_endpoint = ep,
               x_bytes = (if bit ep 7 then [] else take (nat len) buf),
               x_length = len, x_timeout = tmo\<rparr>
      in ((r_ret rep, r_actual rep, buf'), s\<lparr>trace := trace s @ [x]\<rparr>))"

text \<open>
  \<open>strncmp\<close>: compares at most \<open>n\<close> characters and stops at a NUL; the end of a list
  reads as NUL.
\<close>

fun strncmp :: "byte list \<Rightarrow> byte list \<Rightarrow> nat \<Rightarrow> int" where
  "strncmp s1 s2 0 = 0"
| "strncmp s1 s2 (Suc n) =
     (let c1 = (case s1 of [] \<Rightarrow> 0 | a # _ \<Rightarrow> a);
          c2 = (case s2 of [] \<Rightarrow> 0 | b # _ \<Rightarrow> b)
      in if c1 \<noteq> c2 then uint c1 - uint c2
         else if c1 = 0 then 0
         else strncmp (tl s1) (tl s2) n)"

text \<open>
  \<open>memcpy(dst + pd, src + ps, n)\<close> between two distinct buffers. An access outside
  either buffer is undefined behaviour: \<open>None\<close>.
\<close>

definition memcpy :: "byte list \<Rightarrow> int \<Rightarrow> byte list \<Rightarrow> int \<Rightarrow> int \<Rightarrow> byte list option" where
  "memcpy dst pd src ps n =
     (if n < 0 \<or> ps < 0 \<or> pd < 0 \<or> int (length src) < ps + n \<or> int (length dst) < pd + n
      then None
      else Some (take (nat pd) dst @ take (nat n) (drop (nat ps) src) @ drop (nat (pd + n)) dst))"

subsection \<open>Command transport: \<open>wrap_scsi\<close>\<close>

text \<open>
  The data phase (source lines 359 to 373). The first component is \<open>Some ret\<close> when the
  function returns \<open>ret\<close> from here. \<open>block_len\<close> is passed to an \<open>int\<close> parameter
  and compared as \<open>(int) block_len\<close>.
\<close>

definition wrap_scsi_data ::
  "nat \<Rightarrow> int \<Rightarrow> byte list option \<Rightarrow> 64 word \<Rightarrow> globals \<Rightarrow> int option \<times> byte list option \<times> globals" where
  "wrap_scsi_data dev out data block_len s =
     (let n = sint (ucast block_len :: 32 word) in
      if out = DIR_OUT then
        (case data of
           None \<Rightarrow> (None, data, s)
         | Some d \<Rightarrow>
             (let ((ret, transfered, _), s1) = libusb_bulk_transfer dev ENDPT_OUT d n 3000 s
              in if ret \<noteq> 0 \<or> transfered \<noteq> n
                 then (Some ret, data, s1\<lparr>logged := logged s1 @ [Err_bulk_write]\<rparr>)
                 else (None, data, s1)))
      else
        (case data of
           None \<Rightarrow> (None, data, s)
         | Some d \<Rightarrow>
             (let ((ret, transfered, d'), s1) = libusb_bulk_transfer dev ENDPT_IN d n 4000 s
              in if ret \<noteq> 0 \<or> transfered \<noteq> n
                 then (Some ret, Some d', s1\<lparr>logged := logged s1 @ [Err_bulk_read]\<rparr>)
                 else (None, Some d', s1))))"

text \<open>
  One pass through the body of the \<open>do ... while\<close> loop of the status phase (lines 379 to
  386): the read into \<open>ansbuf\<close> with \<open>len = sizeof(ansbuf) = 13\<close>, and the flag
  \<open>timeout\<close>.
\<close>

definition wrap_scsi_ack_read :: "nat \<Rightarrow> globals \<Rightarrow> bool \<times> globals" where
  "wrap_scsi_ack_read dev s =
     (let len = 13;
          ((ret, transfered, buf), s1) = libusb_bulk_transfer dev ENDPT_IN (ansbuf s) len 5000 s;
          s2 = s1\<lparr>ansbuf := buf\<rparr>
      in if ret \<noteq> 0 \<or> transfered \<noteq> len
         then (True, s2\<lparr>logged := logged s2 @ [Err_bulk_ack ret transfered len]\<rparr>)
         else (False, s2))"

text \<open>
  The loop \<open>do { ...; retry++; } while (timeout && retry < 5)\<close>, entered with the
  current value of \<open>retry\<close>. Nothing after the loop reads \<open>timeout\<close>.
\<close>

function wrap_scsi_ack_loop :: "nat \<Rightarrow> int \<Rightarrow> globals \<Rightarrow> globals" where
  "wrap_scsi_ack_loop dev retry s =
     (let (timeout, s1) = wrap_scsi_ack_read dev s;
          retry1 = retry + 1
      in if timeout \<and> retry1 < 5 then wrap_scsi_ack_loop dev retry1 s1 else s1)"
  by pat_completeness auto
termination
  by (relation "measure (\<lambda>(dev, retry, s). nat (5 - retry))") auto

text \<open>The status phase (lines 374 to 393): the loop, the signature check, the return.\<close>

definition wrap_scsi_status :: "nat \<Rightarrow> globals \<Rightarrow> int \<times> globals" where
  "wrap_scsi_status dev s =
     (let s1 = wrap_scsi_ack_loop dev 0 s
      in if strncmp (ansbuf s1) USBS 4 \<noteq> 0
         then (- 1, s1\<lparr>logged := logged s1 @ [Err_invalid_reply]\<rparr>)
         else (uint (ansbuf s1 ! 12), s1))"

text \<open>
  \<open>wrap_scsi(h, cmd, cmdlen, out, data, block_len)\<close>. The result is the returned
  \<open>int\<close>, the data buffer (filled on a read) and the state. A \<open>NULL\<close> handle, or a
  \<open>memcpy\<close> that leaves \<open>cmd\<close> or the 31 bytes of \<open>g_buf\<close>, is undefined behaviour.
\<close>

definition wrap_scsi ::
  "DPFContext option \<Rightarrow> byte list \<Rightarrow> int \<Rightarrow> int \<Rightarrow> byte list option \<Rightarrow> 64 word \<Rightarrow> globals
     \<Rightarrow> (int \<times> byte list option \<times> globals) option" where
  "wrap_scsi h cmd cmdlen out data block_len s =
     (case h of
        None \<Rightarrow> None
      | Some ctx \<Rightarrow>
          (case memcpy ((g_buf s)[14 := word_of_int cmdlen]) 15 cmd 0 cmdlen of
             None \<Rightarrow> None
           | Some gb \<Rightarrow>
               (let gb' = gb[8 := ucast block_len, 9 := ucast (drop_bit 8 block_len),
                             10 := ucast (drop_bit 16 block_len), 11 := ucast (drop_bit 24 block_len)];
                    ((ret, transfered, _), s1) =
                       libusb_bulk_transfer (udev ctx) ENDPT_OUT gb' 31 1000 (s\<lparr>g_buf := gb'\<rparr>)
                in if ret \<noteq> 0 then Some (ret, data, s1)
                   else
                     (case wrap_scsi_data (udev ctx) out data block_len s1 of
                        (Some r, data', s2) \<Rightarrow> Some (r, data', s2)
                      | (None, data', s2) \<Rightarrow>
                          (let (r, s3) = wrap_scsi_status (udev ctx) s2 in Some (r, data', s3))))))"

subsection \<open>Blit dispatcher: \<open>dpf_ax_screen_blit\<close>\<close>

text \<open>
  \<open>void dpf_ax_screen_blit(h, buf, short rect[4])\<close>. The differences of the promoted
  \<open>short\<close>s are multiplied as \<open>int\<close> (32 bits, wrapping), the product is converted to
  \<open>unsigned long\<close> and shifted left by one. A byte of the command takes the low eight
  bits of the promoted \<open>int\<close>; \<open>>> 8\<close> on it is an arithmetic shift. The function is
  \<open>void\<close>: what \<open>wrap_scsi\<close> returns is dropped, and only the state comes back.
\<close>

definition blit_len :: "16 word \<times> 16 word \<times> 16 word \<times> 16 word \<Rightarrow> 64 word" where
  "blit_len rect =
     (case rect of (r0, r1, r2, r3) \<Rightarrow>
        push_bit 1 (scast ((scast r2 - scast r0) * (scast r3 - scast r1) :: 32 word) :: 64 word))"

definition blit_cmd :: "byte list \<Rightarrow> 16 word \<times> 16 word \<times> 16 word \<times> 16 word \<Rightarrow> byte list" where
  "blit_cmd cmd rect =
     (case rect of (r0, r1, r2, r3) \<Rightarrow>
        cmd[6 := USBCMD_BLIT,
            7 := ucast (scast r0 :: 32 word),
            8 := ucast (signed_drop_bit 8 (scast r0 :: 32 word)),
            9 := ucast (scast r1 :: 32 word),
            10 := ucast (signed_drop_bit 8 (scast r1 :: 32 word)),
            11 := ucast (scast r2 - 1 :: 32 word),
            12 := ucast (signed_drop_bit 8 (scast r2 - 1 :: 32 word)),
            13 := ucast (scast r3 - 1 :: 32 word),
            14 := ucast (signed_drop_bit 8 (scast r3 - 1 :: 32 word)),
            15 := 0])"

definition dpf_ax_screen_blit ::
  "DPFContext option \<Rightarrow> byte list \<Rightarrow> 16 word \<times> 16 word \<times> 16 word \<times> 16 word \<Rightarrow> globals
     \<Rightarrow> (unit \<times> globals) option" where
  "dpf_ax_screen_blit h buf rect s =
     (let len = blit_len rect;
          cmd = blit_cmd (g_excmd s) rect
      in case wrap_scsi h cmd 16 DIR_OUT (Some buf) len (s\<lparr>g_excmd := cmd\<rparr>) of
           None \<Rightarrow> None
         | Some (_, _, s') \<Rightarrow> Some ((), s'))"

subsection \<open>Dirty-rectangle tracker: \<open>drv_set_pixel\<close> and \<open>update\<close>\<close>

text \<open>
  \<open>drv_set_pixel(x, y, pix)\<close>. C's \<open>%\<close> truncates towards zero (\<open>smod\<close>); a zero
  divisor and an index outside \<open>lcdBuf\<close> are undefined behaviour.
\<close>

definition drv_set_pixel :: "int \<Rightarrow> int \<Rightarrow> RGBA \<Rightarrow> globals \<Rightarrow> globals option" where
  "drv_set_pixel x y pix s =
     (let sx = DCOLS s; sy = DROWS s in
      if sx = 0 \<or> sy = 0 then None
      else
        (let lx = x smod sx; ly = y smod sy in
         if lx < 0 \<or> lx \<ge> pwidth s \<or> ly < 0 \<or> ly \<ge> pheight s
         then Some (s\<lparr>logged := logged s @ [Err_out_of_bounds x y lx ly]\<rparr>)
         else
           (let c1 = RGB565_0 pix; c2 = RGB565_1 pix;
                i = (ly * pwidth s + lx) * DPF_BPP
            in if i < 0 \<or> int (length (lcdBuf s)) \<le> i + 1 then None
               else if lcdBuf s ! nat i \<noteq> c1 \<or> lcdBuf s ! nat (i + 1) \<noteq> c2
               then Some (s\<lparr>lcdBuf := (lcdBuf s)[nat i := c1, nat (i + 1) := c2],
                            minx := (if lx < minx s then lx else minx s),
                            maxx := (if lx > maxx s then lx else maxx s),
                            miny := (if ly < miny s then ly else miny s),
                            maxy := (if ly > maxy s then ly else maxy s)\<rparr>)
               else Some s)))"

text \<open>
  The two nested \<open>for\<close> loops of \<open>update\<close> (lines 454 to 460) visit the coordinates row
  by row; each pixel is read from the client's frame buffer with the panel width as
  stride. \<open>pixel.A\<close> is never assigned by the source; it is 0 here.
\<close>

definition update_coords :: "int \<Rightarrow> int \<Rightarrow> int \<Rightarrow> int \<Rightarrow> (int \<times> int) list" where
  "update_coords x y w h = concat (map (\<lambda>ly. map (\<lambda>lx. (lx, ly)) [x .. x + w - 1]) [y .. y + h - 1])"

fun update_pixels :: "rfbClient \<Rightarrow> (int \<times> int) list \<Rightarrow> globals \<Rightarrow> globals option" where
  "update_pixels cl [] s = Some s"
| "update_pixels cl ((lx, ly) # rest) s =
     (let i = (ly * pwidth s + lx) * 4 in
      if i < 0 \<or> int (length (frameBuffer cl)) \<le> i + 2 then None
      else
        (let pixel = \<lparr>R = frameBuffer cl ! nat i, G = frameBuffer cl ! nat (i + 1),
                       B = frameBuffer cl ! nat (i + 2), A = 0\<rparr>
         in case drv_set_pixel lx ly pixel s of
              None \<Rightarrow> None
            | Some s' \<Rightarrow> update_pixels cl rest s'))"

text \<open>
  The copy loop of \<open>update\<close> (lines 470 to 474): \<open>rows\<close> times, copy \<open>cpylength\<close> bytes
  from \<open>lcdBuf + ps\<close> to \<open>xferBuf + pd\<close>, then advance \<open>ps\<close> by the stride and \<open>pd\<close> by
  \<open>cpylength\<close>.
\<close>

fun copy_rows :: "byte list \<Rightarrow> int \<Rightarrow> byte list \<Rightarrow> int \<Rightarrow> int \<Rightarrow> int \<Rightarrow> nat \<Rightarrow> byte list option" where
  "copy_rows dst pd src ps cpylength stride 0 = Some dst"
| "copy_rows dst pd src ps cpylength stride (Suc rows) =
     (case memcpy dst pd src ps cpylength of
        None \<Rightarrow> None
      | Some dst' \<Rightarrow> copy_rows dst' (pd + cpylength) src (ps + stride) cpylength stride rows)"

text \<open>
  The rest of \<open>update\<close> (lines 462 to 488), which the specification calls flush: return
  if nothing is dirty; else copy the rectangle into \<open>xferBuf\<close>, build \<open>short rect[4]\<close>,
  call \<open>dpf_ax_screen_blit\<close> and reset the rectangle.
\<close>

definition update_flush :: "globals \<Rightarrow> globals option" where
  "update_flush s =
     (if minx s > maxx s \<or> miny s > maxy s then Some s
      else
        (let cpylength = (maxx s - minx s + 1) * DPF_BPP;
             ps = (miny s * pwidth s + minx s) * DPF_BPP
         in case copy_rows (xferBuf s) 0 (lcdBuf s) ps cpylength (pwidth s * DPF_BPP)
                   (nat (maxy s - miny s + 1)) of
              None \<Rightarrow> None
            | Some xb \<Rightarrow>
                (let s1 = s\<lparr>xferBuf := xb\<rparr>;
                     rect = (word_of_int (minx s1), word_of_int (miny s1),
                             word_of_int (maxx s1 + 1), word_of_int (maxy s1 + 1))
                 in case dpf_ax_screen_blit (dpfh s1) (xferBuf s1) rect s1 of
                      None \<Rightarrow> None
                    | Some (_, s2) \<Rightarrow>
                        Some (s2\<lparr>minx := pwidth s2 - 1, maxx := 0,
                                  miny := pheight s2 - 1, maxy := 0\<rparr>))))"

definition update :: "rfbClient \<Rightarrow> int \<Rightarrow> int \<Rightarrow> int \<Rightarrow> int \<Rightarrow> globals \<Rightarrow> globals option" where
  "update cl x y w h s =
     (case update_pixels cl (update_coords x y w h) s of
        None \<Rightarrow> None
      | Some s1 \<Rightarrow> update_flush s1)"

subsection \<open>Start-up: \<open>dpf_ax_open\<close> and \<open>main\<close>\<close>

text \<open>
  \<open>dpf_ax_open\<close> from line 198 on: the device \<open>u\<close> has been found, opened and claimed
  (the libusb enumeration before that is outside this model). The fresh context has
  its dimensions unset (0 here); the "get LCD parameters" command is run with a
  5-byte buffer and on return code 0 the dimensions are stored on the handle. On any
  other return code the handle is closed and \<open>NULL\<close> is returned; \<open>dpf_ax_close\<close>
  releases the interface and frees the context, which changes nothing in this state.
\<close>

definition dpf_ax_open :: "nat \<Rightarrow> globals \<Rightarrow> (DPFContext option \<times> globals) option" where
  "dpf_ax_open u s =
     (let dpf = \<lparr>udev = u, width = 0, height = 0\<rparr>;
          cmd = [0xcd, 0, 0, 0, 0, 2, 0, 0, 0, 0, 0, 0, 0, 0, 0, 0]
      in case wrap_scsi (Some dpf) cmd 16 DIR_IN (Some [0, 0, 0, 0, 0]) 5 s of
           None \<Rightarrow> None
         | Some (r, data, s') \<Rightarrow>
             if r = 0 then
               (let buf = (case data of None \<Rightarrow> [0, 0, 0, 0, 0] | Some b \<Rightarrow> b);
                    w = ucast (buf ! 0) OR push_bit 8 (ucast (buf ! 1));
                    h = ucast (buf ! 2) OR push_bit 8 (ucast (buf ! 3))
                in Some (Some (dpf\<lparr>width := w, height := h\<rparr>),
                         s'\<lparr>logged := logged s' @ [Log_dimensions w h]\<rparr>))
             else Some (None, s'\<lparr>logged := logged s' @ [Err_reading_dimensions]\<rparr>))"

text \<open>
  \<open>main\<close>, lines 552 to 576, once \<open>dpf_ax_open\<close> has returned the handle \<open>h\<close>: the
  panel size is assigned from literals, both buffers are allocated from it, the
  display buffer is cleared and the whole panel is marked dirty. \<open>malloc\<close> leaves
  \<open>xferBuf\<close> uninitialised; it is zero here, and \<open>update\<close> writes every byte of it
  before sending it.
\<close>

definition main_init :: "DPFContext \<Rightarrow> globals \<Rightarrow> globals" where
  "main_init h s =
     (let s1 = s\<lparr>dpfh := Some h\<rparr>;
          s2 = s1\<lparr>pwidth := 480, pheight := 320\<rparr>;
          s3 = s2\<lparr>lcdBuf := replicate (nat (pwidth s2 * pheight s2 * DPF_BPP)) 0,
                   xferBuf := replicate (nat (pwidth s2 * pheight s2 * DPF_BPP)) 0\<rparr>;
          s4 = s3\<lparr>minx := 0, maxx := pwidth s3 - 1, miny := 0, maxy := pheight s3 - 1\<rparr>
      in s4\<lparr>DROWS := pheight s4, DCOLS := pwidth s4\<rparr>)"

text \<open>
  The state when \<open>main\<close> is entered: the static initialisers of \<open>g_excmd\<close> and
  \<open>g_buf\<close>, everything else zero, no buffer allocated, for a panel that will answer
  with the replies \<open>dev\<close>.
\<close>

definition program_start :: "(nat \<Rightarrow> usb_reply) \<Rightarrow> globals" where
  "program_start dev =
     \<lparr>lcdBuf = [], xferBuf = [], dpfh = None, pwidth = 0, pheight = 0,
      minx = 0, maxx = 0, miny = 0, maxy = 0, backlight = 0, DROWS = 0, DCOLS = 0,
      g_excmd = [0xcd, 0, 0, 0, 0, 6, 0, 0, 0, 0, 0, 0, 0, 0, 0, 0],
      g_buf = [0x55, 0x53, 0x42, 0x43, 0xde, 0xad, 0xbe, 0xef, 0x00, 0x80, 0x00, 0x00,
               0x00, 0x00, 0x10,
               0xcd, 0x00, 0x00, 0x00, 0x00, 0x06, 0x11, 0xf8,
               0x70, 0x00, 0x40, 0x00, 0x00, 0x00, 0x00, 0x00],
      ansbuf = replicate 13 0,
      device = dev, trace = [], logged = []\<rparr>"

subsection \<open>Predicates used in the statements\<close>

text \<open>
  A panel that gives the listed replies to the first transfers and then is gone
  (\<open>LIBUSB_ERROR_NO_DEVICE\<close>, nothing transferred).
\<close>

definition script_of :: "usb_reply list \<Rightarrow> nat \<Rightarrow> usb_reply" where
  "script_of rs n = (if n < length rs then rs ! n else \<lparr>r_ret = - 4, r_actual = 0, r_data = []\<rparr>)"

text \<open>
  The static arrays have the sizes of their declarations: \<open>g_excmd[16]\<close>,
  \<open>g_buf[31]\<close>, \<open>ansbuf[13]\<close>.
\<close>

definition statics_ok :: "globals \<Rightarrow> bool" where
  "statics_ok s \<longleftrightarrow> length (g_excmd s) = 16 \<and> length (g_buf s) = 31 \<and> length (ansbuf s) = 13"

text \<open>
  What holds of the state from the end of \<open>main\<close>'s initialisation on: the panel and
  canvas sizes are those \<open>main\<close> assigns, both buffers have the size \<open>main\<close> allocates,
  the handle is open, and the four bounds of the dirty rectangle are panel coordinates.
\<close>

definition session_inv :: "globals \<Rightarrow> bool" where
  "session_inv s \<longleftrightarrow>
     statics_ok s \<and> dpfh s \<noteq> None \<and>
     pwidth s = 480 \<and> pheight s = 320 \<and> DCOLS s = 480 \<and> DROWS s = 320 \<and>
     length (lcdBuf s) = 307200 \<and> length (xferBuf s) = 307200 \<and>
     0 \<le> minx s \<and> minx s < 480 \<and> 0 \<le> maxx s \<and> maxx s < 480 \<and>
     0 \<le> miny s \<and> miny s < 320 \<and> 0 \<le> maxy s \<and> maxy s < 320"

text \<open>A status read fails: a non-zero return value or a count other than 13.\<close>

definition status_failed :: "usb_reply \<Rightarrow> bool" where
  "status_failed rep \<longleftrightarrow> r_ret rep \<noteq> 0 \<or> r_actual rep \<noteq> 13"

text \<open>
  What the transport may change: \<open>g_buf\<close>, \<open>ansbuf\<close>, the trace and the log, and the
  bytes of \<open>g_excmd\<close>. Everything else, and the sizes of the three arrays, stays.
\<close>

definition transport_frame :: "globals \<Rightarrow> globals \<Rightarrow> bool" where
  "transport_frame s t \<longleftrightarrow>
     lcdBuf t = lcdBuf s \<and> xferBuf t = xferBuf s \<and> dpfh t = dpfh s \<and>
     pwidth t = pwidth s \<and> pheight t = pheight s \<and>
     minx t = minx s \<and> maxx t = maxx s \<and> miny t = miny s \<and> maxy t = maxy s \<and>
     backlight t = backlight s \<and> DROWS t = DROWS s \<and> DCOLS t = DCOLS s \<and>
     device t = device s \<and>
     length (g_excmd t) = length (g_excmd s) \<and> length (g_buf t) = length (g_buf s) \<and>
     length (ansbuf t) = length (ansbuf s)"

subsection \<open>Concrete panels\<close>

text \<open>
  A panel that answers the "get LCD parameters" command of \<open>dpf_ax_open\<close> (envelope,
  five bytes of data, a good status with return code 0), accepts the envelope and the
  data of the next command, and then lets all five status reads time out
  (\<open>LIBUSB_ERROR_TIMEOUT\<close> is \<open>- 7\<close>) with nothing transferred.
\<close>

definition stalling_panel :: "usb_reply list" where
  "stalling_panel =
     [\<lparr>r_ret = 0, r_actual = 31, r_data = []\<rparr>,
      \<lparr>r_ret = 0, r_actual = 5, r_data = [0xe0, 0x01, 0x40, 0x01, 0]\<rparr>,
      \<lparr>r_ret = 0, r_actual = 13, r_data = [0x55, 0x53, 0x42, 0x53, 0, 0, 0, 0, 0, 0, 0, 0, 0]\<rparr>,
      \<lparr>r_ret = 0, r_actual = 31, r_data = []\<rparr>,
      \<lparr>r_ret = 0, r_actual = 2, r_data = []\<rparr>,
      \<lparr>r_ret = - 7, r_actual = 0, r_data = []\<rparr>,
      \<lparr>r_ret = - 7, r_actual = 0, r_data = []\<rparr>,
      \<lparr>r_ret = - 7, r_actual = 0, r_data = []\<rparr>,
      \<lparr>r_ret = - 7, r_actual = 0, r_data = []\<rparr>,
      \<lparr>r_ret = - 7, r_actual = 0, r_data = []\<rparr>]"

text \<open>
  A panel that accepts an envelope, answers the first status read with four bytes only,
  and the second with thirteen bytes whose signature is \<open>USBX\<close> and whose last byte
  is 0.
\<close>

definition bad_signature_panel :: "usb_reply list" where
  "bad_signature_panel =
     [\<lparr>r_ret = 0, r_actual = 31, r_data = []\<rparr>,
      \<lparr>r_ret = 0, r_actual = 4, r_data = [0x55, 0x53, 0x42, 0x53]\<rparr>,
      \<lparr>r_ret = 0, r_actual = 13, r_data = [0x55, 0x53, 0x42, 0x58, 0, 0, 0, 0, 0, 0, 0, 0, 0]\<rparr>]"

text \<open>
  A panel that answers the "get LCD parameters" command with the dimensions 128 by 128
  and a good status whose return code is 0.
\<close>

definition small_panel :: "usb_reply list" where
  "small_panel =
     [\<lparr>r_ret = 0, r_actual = 31, r_data = []\<rparr>,
      \<lparr>r_ret = 0, r_actual = 5, r_data = [0x80, 0, 0x80, 0, 0]\<rparr>,
      \<lparr>r_ret = 0, r_actual = 13, r_data = [0x55, 0x53, 0x42, 0x53, 0, 0, 0, 0, 0, 0, 0, 0, 0]\<rparr>]"

subsection \<open>Notions of the specification\<close>

text \<open>A 16-bit value in little-endian order: the low byte, then the high byte.\<close>

definition le16 :: "16 word \<Rightarrow> byte list" where
  "le16 w = [ucast w, ucast (drop_bit 8 w)]"

text \<open>A sequence of \<open>drv_set_pixel\<close> calls, one after the other.\<close>

fun set_pixels :: "(int \<times> int \<times> RGBA) list \<Rightarrow> globals \<Rightarrow> globals option" where
  "set_pixels [] s = Some s"
| "set_pixels ((x, y, pix) # rest) s =
     (case drv_set_pixel x y pix s of None \<Rightarrow> None | Some s' \<Rightarrow> set_pixels rest s')"

text \<open>The two bytes \<open>lcdBuf\<close> holds for the panel pixel \<open>(x, y)\<close>.\<close>

definition stored :: "globals \<Rightarrow> int \<Rightarrow> int \<Rightarrow> byte \<times> byte" where
  "stored s x y =
     (lcdBuf s ! nat ((y * pwidth s + x) * DPF_BPP), lcdBuf s ! nat ((y * pwidth s + x) * DPF_BPP + 1))"

text \<open>
  The coordinates of those calls whose packed colour differs from what \<open>lcdBuf\<close> holds
  at their coordinate in the state \<open>s\<close>.
\<close>

definition changes :: "globals \<Rightarrow> (int \<times> int \<times> RGBA) list \<Rightarrow> (int \<times> int) list" where
  "changes s calls =
     map (\<lambda>(x, y, pix). (x, y))
       (filter (\<lambda>(x, y, pix). (RGB565_0 pix, RGB565_1 pix) \<noteq> stored s x y) calls)"

text \<open>Coordinates of the panel, which is 480 wide and 320 high.\<close>

definition in_panel :: "int \<Rightarrow> int \<Rightarrow> bool" where
  "in_panel x y \<longleftrightarrow> 0 \<le> x \<and> x < 480 \<and> 0 \<le> y \<and> y < 320"

text \<open>The same state with other dimensions stored on the handle.\<close>

definition set_dims :: "32 word \<Rightarrow> 32 word \<Rightarrow> globals \<Rightarrow> globals" where
  "set_dims w h s = s\<lparr>dpfh := map_option (\<lambda>c. c\<lparr>width := w, height := h\<rparr>) (dpfh s)\<rparr>"

subsection \<open>Concrete sessions\<close>

text \<open>
  A session whose handle says the panel is 128 by 128, initialised by \<open>main\<close>, with a
  panel that is gone: every transfer returns \<open>LIBUSB_ERROR_NO_DEVICE\<close>.
\<close>

definition unplugged_session :: globals where
  "unplugged_session = main_init \<lparr>udev = 0, width = 128, height = 128\<rparr> (program_start (script_of []))"

text \<open>
  A panel that accepts an envelope and two bytes of data and answers the status read
  with a good status whose return code is 0.
\<close>

definition accepting_panel :: "usb_reply list" where
  "accepting_panel =
     [\<lparr>r_ret = 0, r_actual = 31, r_data = []\<rparr>,
      \<lparr>r_ret = 0, r_actual = 2, r_data = []\<rparr>,
      \<lparr>r_ret = 0, r_actual = 13, r_data = [0x55, 0x53, 0x42, 0x53, 0, 0, 0, 0, 0, 0, 0, 0, 0]\<rparr>]"

section \<open>Pixel conversion\<close>

lemma mask_f8: "(0xf8::32 word) = push_bit 3 (mask 5)"
  by (simp add: mask_eq_exp_minus_1 push_bit_eq_mult)

lemma mask_e0: "(0xe0::32 word) = push_bit 5 (mask 3)"
  by (simp add: mask_eq_exp_minus_1 push_bit_eq_mult)

lemma mask_1c: "(0x1c::32 word) = push_bit 2 (mask 3)"
  by (simp add: mask_eq_exp_minus_1 push_bit_eq_mult)

lemma Suc_Suc_diff_5: "5 \<le> n \<Longrightarrow> Suc (Suc (n - 5)) = n - 3"
  by arith

lemma RGB565_0_bytes: "RGB565_0 p = push_bit 3 (drop_bit 3 (R p)) OR drop_bit 5 (G p)"
  unfolding RGB565_0_def mask_f8 mask_e0
  by (rule bit_word_eqI) (auto simp add: bit_simps dest: bit_imp_le_length)

lemma RGB565_1_bytes:
  "RGB565_1 p = push_bit 5 (take_bit 3 (drop_bit 2 (G p))) OR drop_bit 3 (B p)"
  unfolding RGB565_1_def mask_f8 mask_1c
  by (rule bit_word_eqI) (auto simp add: bit_simps Suc_Suc_diff_5 dest: bit_imp_le_length)

text \<open>
  Claim C9. For every pixel the two macros give exactly the two bytes the specification
  describes: byte 0 is the top five bits of R with the top three bits of G in the low
  three bits, byte 1 is bits 4 to 2 of G in the high three bits with the top five bits
  of B in the low five bits. The right-hand side does not mention the alpha value, so
  the result is the same for every alpha; the macros are total functions.
\<close>

theorem rgb565_conversion:
  "[RGB565_0 \<lparr>R = r, G = g, B = b, A = a\<rparr>, RGB565_1 \<lparr>R = r, G = g, B = b, A = a\<rparr>] = convert_spec r g b
   \<and> RGB565_0 (p\<lparr>A := a1\<rparr>) = RGB565_0 (p\<lparr>A := a2\<rparr>)
   \<and> RGB565_1 (p\<lparr>A := a1\<rparr>) = RGB565_1 (p\<lparr>A := a2\<rparr>)"
  by (simp add: RGB565_0_bytes RGB565_1_bytes convert_spec_def)

theorem rgb565_conversion_witness:
  "[RGB565_0 \<lparr>R = 255, G = 0, B = 0, A = 255\<rparr>, RGB565_1 \<lparr>R = 255, G = 0, B = 0, A = 255\<rparr>] = [0xf8, 0]
   \<and> RGB565_0 \<lparr>R = 255, G = 0, B = 0, A = 7\<rparr> = RGB565_0 \<lparr>R = 255, G = 0, B = 0, A = 9\<rparr>"
  using rgb565_conversion [of 255 0 0 255 7 "\<lparr>R = 255, G = 0, B = 0, A = 0\<rparr>" 9]
  by (simp add: convert_spec_def)

section \<open>Command transport\<close>

subsection \<open>What the phases change\<close>

lemma transport_frame_refl: "transport_frame s s"
  by (simp add: transport_frame_def)

lemma transport_frame_trans: "transport_frame s t \<Longrightarrow> transport_frame t u \<Longrightarrow> transport_frame s u"
  by (simp add: transport_frame_def)

lemma bulk_result:
  "libusb_bulk_transfer dev ep buf len tmo s =
     ((r_ret (device s (length (trace s))), r_actual (device s (length (trace s))),
       (if bit ep 7
        then take (length buf) (take (nat len) (r_data (device s (length (trace s)))) @
               drop (length (take (nat len) (r_data (device s (length (trace s)))))) buf)
        else buf)),
      s\<lparr>trace := trace s @
          [\<lparr>x_udev = dev, x_endpoint = ep, x_bytes = (if bit ep 7 then [] else take (nat len) buf),
            x_length = len, x_timeout = tmo\<rparr>]\<rparr>)"
  by (simp add: libusb_bulk_transfer_def Let_def)

lemma bit7_endpt [simp]: "bit ENDPT_IN 7" "\<not> bit ENDPT_OUT 7"
  by (simp_all add: ENDPT_IN_def ENDPT_OUT_def bit_simps)

lemma ack_read_fst: "fst (wrap_scsi_ack_read dev s) = status_failed (device s (length (trace s)))"
  by (simp add: wrap_scsi_ack_read_def bulk_result status_failed_def Let_def)

lemma ack_read_frame: "transport_frame s (snd (wrap_scsi_ack_read dev s))"
  by (auto simp add: wrap_scsi_ack_read_def bulk_result Let_def transport_frame_def)

lemma ack_read_trace:
  "length (trace (snd (wrap_scsi_ack_read dev s))) = Suc (length (trace s))"
  by (simp add: wrap_scsi_ack_read_def bulk_result Let_def)

lemma ack_read_ansbuf:
  "length (ansbuf s) = 13 \<Longrightarrow> length (r_data (device s (length (trace s)))) = 13 \<Longrightarrow>
   ansbuf (snd (wrap_scsi_ack_read dev s)) = r_data (device s (length (trace s)))"
  by (simp add: wrap_scsi_ack_read_def bulk_result Let_def)

declare wrap_scsi_ack_loop.simps [simp del]

lemma ack_loop_unfold:
  "wrap_scsi_ack_loop dev retry s =
     (if fst (wrap_scsi_ack_read dev s) \<and> retry + 1 < 5
      then wrap_scsi_ack_loop dev (retry + 1) (snd (wrap_scsi_ack_read dev s))
      else snd (wrap_scsi_ack_read dev s))"
  by (subst wrap_scsi_ack_loop.simps) (simp add: Let_def split_beta)

lemma ack_loop_frame: "transport_frame s (wrap_scsi_ack_loop dev retry s)"
proof (induction "nat (5 - retry)" arbitrary: retry s)
  case 0
  then show ?case
    by (subst ack_loop_unfold) (simp add: ack_read_frame)
next
  case (Suc n)
  then have "transport_frame (snd (wrap_scsi_ack_read dev s))
               (wrap_scsi_ack_loop dev (retry + 1) (snd (wrap_scsi_ack_read dev s)))"
    by simp
  then show ?case
    using ack_read_frame [of s dev]
    by (subst ack_loop_unfold) (auto intro: transport_frame_trans)
qed

lemma ack_loop_good:
  "length (ansbuf s) = 13 \<Longrightarrow> retry + int k < 5 \<Longrightarrow>
   (\<forall>j<k. status_failed (device s (length (trace s) + j))) \<Longrightarrow>
   \<not> status_failed (device s (length (trace s) + k)) \<Longrightarrow>
   length (r_data (device s (length (trace s) + k))) = 13 \<Longrightarrow>
   ansbuf (wrap_scsi_ack_loop dev retry s) = r_data (device s (length (trace s) + k)) \<and>
   length (trace (wrap_scsi_ack_loop dev retry s)) = length (trace s) + Suc k"
proof (induction k arbitrary: s retry)
  case 0
  then show ?case
    by (subst (1 2) ack_loop_unfold) (simp add: ack_read_fst ack_read_ansbuf ack_read_trace)
next
  case (Suc k)
  let ?s1 = "snd (wrap_scsi_ack_read dev s)"
  have fr: "transport_frame s ?s1" by (rule ack_read_frame)
  have dv: "device ?s1 = device s" and ln: "length (ansbuf ?s1) = 13"
    using fr Suc.prems(1) by (simp_all add: transport_frame_def)
  have tr: "length (trace ?s1) = Suc (length (trace s))" by (rule ack_read_trace)
  have failed: "status_failed (device s (length (trace s)))"
    using Suc.prems(3) by (metis add.right_neutral zero_less_Suc)
  have "ansbuf (wrap_scsi_ack_loop dev (retry + 1) ?s1) = r_data (device ?s1 (length (trace ?s1) + k)) \<and>
        length (trace (wrap_scsi_ack_loop dev (retry + 1) ?s1)) = length (trace ?s1) + Suc k"
  proof (rule Suc.IH)
    show "length (ansbuf ?s1) = 13" by (rule ln)
    show "retry + 1 + int k < 5" using Suc.prems(2) by simp
    show "\<forall>j<k. status_failed (device ?s1 (length (trace ?s1) + j))"
      using Suc.prems(3) by (auto simp add: dv tr)
    show "\<not> status_failed (device ?s1 (length (trace ?s1) + k))"
      using Suc.prems(4) by (simp add: dv tr)
    show "length (r_data (device ?s1 (length (trace ?s1) + k))) = 13"
      using Suc.prems(5) by (simp add: dv tr)
  qed
  moreover have "retry + 1 < 5" using Suc.prems(2) by simp
  ultimately show ?case
    using failed by (subst (1 2) ack_loop_unfold) (simp add: ack_read_fst dv tr)
qed

lemma list4:
  assumes "4 \<le> length (a :: 'a list)"
  obtains a0 a1 a2 a3 r where "a = a0 # a1 # a2 # a3 # r"
proof -
  have "Suc (Suc (Suc (Suc 0))) \<le> length a" using assms by simp
  then show ?thesis
    by (auto simp add: Suc_le_length_iff intro: that)
qed

lemma strncmp_USBS:
  assumes "4 \<le> length a"
  shows "strncmp a USBS 4 = 0 \<longleftrightarrow> take 4 a = [0x55, 0x53, 0x42, 0x53]"
proof -
  from assms obtain a0 a1 a2 a3 r where a: "a = a0 # a1 # a2 # a3 # r"
    by (rule list4)
  have n4: "(4::nat) = Suc (Suc (Suc (Suc 0)))" by simp
  have d: "\<And>x :: byte. uint x = 85 \<longleftrightarrow> x = 85" "\<And>x :: byte. uint x = 83 \<longleftrightarrow> x = 83"
    "\<And>x :: byte. uint x = 66 \<longleftrightarrow> x = 66"
    by (simp_all add: word_uint_eq_iff)
  show ?thesis
    unfolding a USBS_def
    apply (subst n4)
    apply (simp add: Let_def d del: One_nat_def)
    done
qed

lemma ack_read_nothing:
  "r_data (device s (length (trace s))) = [] \<Longrightarrow>
   ansbuf (snd (wrap_scsi_ack_read dev s)) = ansbuf s"
  by (simp add: wrap_scsi_ack_read_def bulk_result Let_def)

lemma ack_loop_stalled:
  "n = nat (5 - retry) \<Longrightarrow> retry < 5 \<Longrightarrow>
   (\<forall>j<n. status_failed (device s (length (trace s) + j)) \<and>
           r_data (device s (length (trace s) + j)) = []) \<Longrightarrow>
   ansbuf (wrap_scsi_ack_loop dev retry s) = ansbuf s \<and>
   length (trace (wrap_scsi_ack_loop dev retry s)) = length (trace s) + n"
proof (induction n arbitrary: retry s)
  case 0
  then show ?case by simp
next
  case (Suc n)
  let ?s1 = "snd (wrap_scsi_ack_read dev s)"
  have fr: "transport_frame s ?s1" by (rule ack_read_frame)
  have dv: "device ?s1 = device s"
    using fr by (simp add: transport_frame_def)
  have tr: "length (trace ?s1) = Suc (length (trace s))" by (rule ack_read_trace)
  have first: "status_failed (device s (length (trace s)))" "r_data (device s (length (trace s))) = []"
    using Suc.prems(3) by (metis add.right_neutral zero_less_Suc)+
  have ab: "ansbuf ?s1 = ansbuf s" using first(2) by (rule ack_read_nothing)
  show ?case
  proof (cases "retry + 1 < 5")
    case True
    have "ansbuf (wrap_scsi_ack_loop dev (retry + 1) ?s1) = ansbuf ?s1 \<and>
          length (trace (wrap_scsi_ack_loop dev (retry + 1) ?s1)) = length (trace ?s1) + n"
    proof (rule Suc.IH)
      show "n = nat (5 - (retry + 1))" using Suc.prems(1) by simp
      show "retry + 1 < 5" by (rule True)
      show "\<forall>j<n. status_failed (device ?s1 (length (trace ?s1) + j)) \<and>
                   r_data (device ?s1 (length (trace ?s1) + j)) = []"
        using Suc.prems(3) by (auto simp add: dv tr)
    qed
    then show ?thesis
      using True first(1) by (subst (1 2) ack_loop_unfold) (simp add: ack_read_fst ab tr)
  next
    case False
    then have "n = 0" using Suc.prems(1,2) by simp
    then show ?thesis
      using False by (subst (1 2) ack_loop_unfold) (simp add: ab tr)
  qed
qed

lemma memcpy_length:
  "memcpy dst pd src ps n = Some dst' \<Longrightarrow> length dst' = length dst"
  by (auto simp add: memcpy_def split: if_splits)

lemma memcpy_Some:
  "0 \<le> n \<Longrightarrow> 0 \<le> ps \<Longrightarrow> 0 \<le> pd \<Longrightarrow> ps + n \<le> int (length src) \<Longrightarrow> pd + n \<le> int (length dst) \<Longrightarrow>
   \<exists>dst'. memcpy dst pd src ps n = Some dst'"
  by (simp add: memcpy_def)

lemma data_frame: "transport_frame s (snd (snd (wrap_scsi_data dev out data block_len s)))"
  by (simp add: wrap_scsi_data_def bulk_result Let_def transport_frame_def split: option.splits)

lemma data_ok:
  assumes "data = None \<or> (r_ret (device s (length (trace s))) = 0 \<and>
             r_actual (device s (length (trace s))) = sint (ucast block_len :: 32 word))"
  shows "fst (wrap_scsi_data dev out data block_len s) = None"
    and "length (trace (snd (snd (wrap_scsi_data dev out data block_len s)))) =
           (if data = None then length (trace s) else Suc (length (trace s)))"
  using assms
  by (auto simp add: wrap_scsi_data_def bulk_result Let_def split: option.splits)

lemma status_frame: "transport_frame s (snd (wrap_scsi_status dev s))"
  using ack_loop_frame [of s dev 0]
  by (simp add: wrap_scsi_status_def Let_def transport_frame_def)

lemma data_ansbuf: "ansbuf (snd (snd (wrap_scsi_data dev out data block_len s))) = ansbuf s"
  by (simp add: wrap_scsi_data_def bulk_result Let_def split: option.splits)

lemma status_acked:
  assumes "length (ansbuf s) = 13" "k < 5"
    and "\<forall>j<k. status_failed (device s (length (trace s) + j))"
    and "\<not> status_failed (device s (length (trace s) + k))"
    and "r_data (device s (length (trace s) + k)) = p" "length p = 13"
  shows "fst (wrap_scsi_status dev s) = (if take 4 p = [0x55, 0x53, 0x42, 0x53] then uint (p ! 12) else - 1)"
    and "ansbuf (snd (wrap_scsi_status dev s)) = p"
    and "length (trace (snd (wrap_scsi_status dev s))) = length (trace s) + Suc k"
proof -
  have "ansbuf (wrap_scsi_ack_loop dev 0 s) = p \<and>
        length (trace (wrap_scsi_ack_loop dev 0 s)) = length (trace s) + Suc k"
    using ack_loop_good [of s 0 k dev] assms by simp
  then show "fst (wrap_scsi_status dev s) = (if take 4 p = [0x55, 0x53, 0x42, 0x53] then uint (p ! 12) else - 1)"
    and "ansbuf (snd (wrap_scsi_status dev s)) = p"
    and "length (trace (snd (wrap_scsi_status dev s))) = length (trace s) + Suc k"
    using assms(6) by (simp_all add: wrap_scsi_status_def Let_def strncmp_USBS)
qed

lemma status_stalled:
  assumes "length (ansbuf s) = 13"
    and "\<forall>j<5. status_failed (device s (length (trace s) + j)) \<and>
                r_data (device s (length (trace s) + j)) = []"
  shows "fst (wrap_scsi_status dev s) =
           (if take 4 (ansbuf s) = [0x55, 0x53, 0x42, 0x53] then uint (ansbuf s ! 12) else - 1)"
    and "ansbuf (snd (wrap_scsi_status dev s)) = ansbuf s"
    and "length (trace (snd (wrap_scsi_status dev s))) = length (trace s) + 5"
proof -
  have "ansbuf (wrap_scsi_ack_loop dev 0 s) = ansbuf s \<and>
        length (trace (wrap_scsi_ack_loop dev 0 s)) = length (trace s) + 5"
    using ack_loop_stalled [of 5 0 s dev] assms(2) by simp
  then show "fst (wrap_scsi_status dev s) =
           (if take 4 (ansbuf s) = [0x55, 0x53, 0x42, 0x53] then uint (ansbuf s ! 12) else - 1)"
    and "ansbuf (snd (wrap_scsi_status dev s)) = ansbuf s"
    and "length (trace (snd (wrap_scsi_status dev s))) = length (trace s) + 5"
    using assms(1) by (simp_all add: wrap_scsi_status_def Let_def strncmp_USBS)
qed

lemma wrap_scsi_unfold:
  assumes "statics_ok s" "0 \<le> cmdlen" "cmdlen \<le> 16" "nat cmdlen \<le> length cmd"
  obtains gb where "length gb = 31"
    and "wrap_scsi (Some ctx) cmd cmdlen out data block_len s =
      (let s1 = s\<lparr>g_buf := gb, trace := trace s @ [\<lparr>x_udev = udev ctx, x_endpoint = ENDPT_OUT, x_bytes = gb, x_length = 31, x_timeout = 1000\<rparr>]\<rparr>
       in if r_ret (device s (length (trace s))) \<noteq> 0 then Some (r_ret (device s (length (trace s))), data, s1)
          else (case wrap_scsi_data (udev ctx) out data block_len s1 of
                        (Some r, data', s2) \<Rightarrow> Some (r, data', s2)
                      | (None, data', s2) \<Rightarrow>
                          (let (r, s3) = wrap_scsi_status (udev ctx) s2 in Some (r, data', s3))))"
proof -
  have "cmdlen \<le> int (length cmd)" using assms(2,4) by linarith
  then obtain g0 where g0: "memcpy ((g_buf s)[14 := word_of_int cmdlen]) 15 cmd 0 cmdlen = Some g0"
    using memcpy_Some [of cmdlen 0 15 cmd "(g_buf s)[14 := word_of_int cmdlen]"] assms
    by (auto simp add: statics_ok_def)
  then have l0: "length g0 = 31"
    using memcpy_length [OF g0] assms by (simp add: statics_ok_def)
  show ?thesis
    by (rule that [of "g0[8 := ucast block_len, 9 := ucast (drop_bit 8 block_len),
                             10 := ucast (drop_bit 16 block_len), 11 := ucast (drop_bit 24 block_len)]"])
       (simp_all add: wrap_scsi_def g0 l0 bulk_result Let_def)
qed

lemma wrap_scsi_total:
  assumes "statics_ok s" "0 \<le> cmdlen" "cmdlen \<le> 16" "nat cmdlen \<le> length cmd"
  shows "\<exists>r d s'. wrap_scsi (Some ctx) cmd cmdlen out data block_len s = Some (r, d, s') \<and>
           transport_frame s s'"
proof -
  obtain gb where gb: "length gb = 31"
    and w: "wrap_scsi (Some ctx) cmd cmdlen out data block_len s =
      (let s1 = s\<lparr>g_buf := gb, trace := trace s @ [\<lparr>x_udev = udev ctx, x_endpoint = ENDPT_OUT, x_bytes = gb, x_length = 31, x_timeout = 1000\<rparr>]\<rparr>
       in if r_ret (device s (length (trace s))) \<noteq> 0 then Some (r_ret (device s (length (trace s))), data, s1)
          else (case wrap_scsi_data (udev ctx) out data block_len s1 of
                        (Some r, data', s2) \<Rightarrow> Some (r, data', s2)
                      | (None, data', s2) \<Rightarrow>
                          (let (r, s3) = wrap_scsi_status (udev ctx) s2 in Some (r, data', s3))))"
    using assms by (rule wrap_scsi_unfold)
  define s1 where "s1 = s\<lparr>g_buf := gb, trace := trace s @ [\<lparr>x_udev = udev ctx, x_endpoint = ENDPT_OUT, x_bytes = gb, x_length = 31, x_timeout = 1000\<rparr>]\<rparr>"
  have f1: "transport_frame s s1"
    using assms(1) gb by (simp add: s1_def transport_frame_def statics_ok_def)
  obtain e d s2 where dp: "wrap_scsi_data (udev ctx) out data block_len s1 = (e, d, s2)"
    by (cases "wrap_scsi_data (udev ctx) out data block_len s1") auto
  have f2: "transport_frame s1 s2"
    using data_frame [of s1 "udev ctx" out data block_len] dp by simp
  obtain r s3 where sp: "wrap_scsi_status (udev ctx) s2 = (r, s3)"
    by (cases "wrap_scsi_status (udev ctx) s2") auto
  have f3: "transport_frame s2 s3"
    using status_frame [of s2 "udev ctx"] sp by simp
  show ?thesis
    unfolding w Let_def s1_def [symmetric]
    using f1 f2 f3 dp sp
    by (cases e) (auto intro: transport_frame_trans)
qed

lemma wrap_scsi_frame:
  "wrap_scsi h cmd cmdlen out data block_len s = Some (r, d, s') \<Longrightarrow> transport_frame s s'"
proof -
  assume a: "wrap_scsi h cmd cmdlen out data block_len s = Some (r, d, s')"
  then obtain ctx where h: "h = Some ctx" by (cases h) (auto simp add: wrap_scsi_def)
  from a h obtain g0 where g0: "memcpy ((g_buf s)[14 := word_of_int cmdlen]) 15 cmd 0 cmdlen = Some g0"
    by (auto simp add: wrap_scsi_def split: option.splits)
  define gb where "gb = g0[8 := ucast block_len, 9 := ucast (drop_bit 8 block_len),
                             10 := ucast (drop_bit 16 block_len), 11 := ucast (drop_bit 24 block_len)]"
  define s1 where "s1 = s\<lparr>g_buf := gb, trace := trace s @ [\<lparr>x_udev = udev ctx, x_endpoint = ENDPT_OUT, x_bytes = take 31 gb, x_length = 31, x_timeout = 1000\<rparr>]\<rparr>"
  have lg: "length gb = length (g_buf s)"
    using memcpy_length [OF g0] by (simp add: gb_def)
  have f1: "transport_frame s s1"
    using lg by (simp add: s1_def transport_frame_def)
  obtain e d2 s2 where dp: "wrap_scsi_data (udev ctx) out data block_len s1 = (e, d2, s2)"
    by (cases "wrap_scsi_data (udev ctx) out data block_len s1") auto
  have f2: "transport_frame s1 s2"
    using data_frame [of s1 "udev ctx" out data block_len] dp by simp
  obtain r3 s3 where sp: "wrap_scsi_status (udev ctx) s2 = (r3, s3)"
    by (cases "wrap_scsi_status (udev ctx) s2") auto
  have f3: "transport_frame s2 s3"
    using status_frame [of s2 "udev ctx"] sp by simp
  have "wrap_scsi h cmd cmdlen out data block_len s =
      (if r_ret (device s (length (trace s))) \<noteq> 0 then Some (r_ret (device s (length (trace s))), data, s1)
          else (case e of Some r \<Rightarrow> Some (r, d2, s2) | None \<Rightarrow> Some (r3, d2, s3)))"
    by (simp add: wrap_scsi_def h g0 bulk_result Let_def gb_def [symmetric] s1_def [symmetric] dp sp
          split: option.splits)
  with a show ?thesis
    using f1 f2 f3 by (auto split: if_splits option.splits intro: transport_frame_trans)
qed

lemma wrap_scsi_reaches_status:
  assumes "statics_ok s" "0 \<le> cmdlen" "cmdlen \<le> 16" "nat cmdlen \<le> length cmd"
    and "r_ret (device s (length (trace s))) = 0"
    and "data = None \<or> (r_ret (device s (Suc (length (trace s)))) = 0 \<and>
           r_actual (device s (Suc (length (trace s)))) = sint (ucast block_len :: 32 word))"
  shows "\<exists>d s2. transport_frame s s2 \<and> ansbuf s2 = ansbuf s \<and>
           length (trace s2) = (if data = None then length (trace s) + 1 else length (trace s) + 2) \<and>
           wrap_scsi (Some ctx) cmd cmdlen out data block_len s =
             Some (fst (wrap_scsi_status (udev ctx) s2), d, snd (wrap_scsi_status (udev ctx) s2))"
proof -
  obtain gb where gb: "length gb = 31"
    and w: "wrap_scsi (Some ctx) cmd cmdlen out data block_len s =
      (let s1 = s\<lparr>g_buf := gb, trace := trace s @ [\<lparr>x_udev = udev ctx, x_endpoint = ENDPT_OUT, x_bytes = gb, x_length = 31, x_timeout = 1000\<rparr>]\<rparr>
       in if r_ret (device s (length (trace s))) \<noteq> 0 then Some (r_ret (device s (length (trace s))), data, s1)
          else (case wrap_scsi_data (udev ctx) out data block_len s1 of
                        (Some r, data', s2) \<Rightarrow> Some (r, data', s2)
                      | (None, data', s2) \<Rightarrow>
                          (let (r, s3) = wrap_scsi_status (udev ctx) s2 in Some (r, data', s3))))"
    using assms(1-4) by (rule wrap_scsi_unfold)
  define s1 where "s1 = s\<lparr>g_buf := gb, trace := trace s @ [\<lparr>x_udev = udev ctx, x_endpoint = ENDPT_OUT, x_bytes = gb, x_length = 31, x_timeout = 1000\<rparr>]\<rparr>"
  have f1: "transport_frame s s1"
    using assms(1) gb by (simp add: s1_def transport_frame_def statics_ok_def)
  have s1: "device s1 = device s" "length (trace s1) = Suc (length (trace s))" "ansbuf s1 = ansbuf s"
    by (simp_all add: s1_def)
  obtain e d s2 where dp: "wrap_scsi_data (udev ctx) out data block_len s1 = (e, d, s2)"
    by (cases "wrap_scsi_data (udev ctx) out data block_len s1") auto
  have e: "e = None"
    using data_ok(1) [of data s1 block_len "udev ctx" out] assms(6) dp by (simp add: s1)
  have tr2: "length (trace s2) = (if data = None then length (trace s) + 1 else length (trace s) + 2)"
    using data_ok(2) [of data s1 block_len "udev ctx" out] assms(6) dp by (simp add: s1)
  have f2: "transport_frame s1 s2"
    using data_frame [of s1 "udev ctx" out data block_len] dp by simp
  have ab: "ansbuf s2 = ansbuf s"
    using data_ansbuf [of "udev ctx" out data block_len s1] dp by (simp add: s1)
  have "wrap_scsi (Some ctx) cmd cmdlen out data block_len s =
             Some (fst (wrap_scsi_status (udev ctx) s2), d, snd (wrap_scsi_status (udev ctx) s2))"
    unfolding w Let_def s1_def [symmetric]
    by (simp add: assms(5) dp e split_beta)
  with f1 f2 ab tr2 show ?thesis
    by (blast intro: transport_frame_trans)
qed

text \<open>
  Claim C6. Take any call of \<open>wrap_scsi\<close> whose command fits, whose envelope is accepted
  and whose data phase (if there is one) completes. If, after \<open>k < 5\<close> failed status
  reads, a read returns 0 with a count of 13 and delivers the 13 bytes \<open>p\<close>, then
  \<open>wrap_scsi\<close> returns \<open>- 1\<close> when the first four bytes of \<open>p\<close> are not \<open>USBS\<close>,
  whatever byte 12 is, and returns byte 12 of \<open>p\<close> as it is when they are.
\<close>

theorem wrap_scsi_status_signature:
  assumes "statics_ok s" "0 \<le> cmdlen" "cmdlen \<le> 16" "nat cmdlen \<le> length cmd"
    and "r_ret (device s (length (trace s))) = 0"
    and "data = None \<or> (r_ret (device s (Suc (length (trace s)))) = 0 \<and>
           r_actual (device s (Suc (length (trace s)))) = sint (ucast block_len :: 32 word))"
    and "m = (if data = None then length (trace s) + 1 else length (trace s) + 2)"
    and "k < 5" "\<forall>j<k. status_failed (device s (m + j))"
    and "device s (m + k) = \<lparr>r_ret = 0, r_actual = 13, r_data = p\<rparr>" "length p = 13"
  shows "map_option fst (wrap_scsi (Some ctx) cmd cmdlen out data block_len s) =
           Some (if take 4 p = [0x55, 0x53, 0x42, 0x53] then uint (p ! 12) else - 1)"
proof -
  obtain d s2 where fr: "transport_frame s s2" and tr: "length (trace s2) = m"
    and w: "wrap_scsi (Some ctx) cmd cmdlen out data block_len s =
             Some (fst (wrap_scsi_status (udev ctx) s2), d, snd (wrap_scsi_status (udev ctx) s2))"
    using wrap_scsi_reaches_status [OF assms(1-6), of ctx out] assms(7) by auto
  have s2: "device s2 = device s" "length (ansbuf s2) = 13"
    using fr assms(1) by (simp_all add: transport_frame_def statics_ok_def)
  have "fst (wrap_scsi_status (udev ctx) s2) =
          (if take 4 p = [0x55, 0x53, 0x42, 0x53] then uint (p ! 12) else - 1)"
    using assms(8-11) by (intro status_acked(1) [where k = k]) (simp_all add: s2 tr status_failed_def)
  then show ?thesis
    by (simp add: w)
qed

theorem wrap_scsi_status_signature_witness:
  "statics_ok (program_start (script_of bad_signature_panel)) \<and>
   status_failed (script_of bad_signature_panel 1) \<and>
   script_of bad_signature_panel 2 =
     \<lparr>r_ret = 0, r_actual = 13, r_data = [0x55, 0x53, 0x42, 0x58, 0, 0, 0, 0, 0, 0, 0, 0, 0]\<rparr> \<and>
   map_option fst
     (wrap_scsi (Some \<lparr>udev = 0, width = 0, height = 0\<rparr>) (replicate 16 0) 16 DIR_OUT None 0
        (program_start (script_of bad_signature_panel))) = Some (- 1)"
  using wrap_scsi_status_signature [of "program_start (script_of bad_signature_panel)" 16
          "replicate 16 0" None 0 1 1 "[0x55, 0x53, 0x42, 0x58, 0, 0, 0, 0, 0, 0, 0, 0, 0]"
          "\<lparr>udev = 0, width = 0, height = 0\<rparr>" DIR_OUT]
  by (simp add: statics_ok_def program_start_def script_of_def bad_signature_panel_def
        status_failed_def)

lemma all_less_5: "(\<forall>j<5. P j) \<longleftrightarrow> P 0 \<and> P 1 \<and> P 2 \<and> P 3 \<and> P (4::nat)"
proof -
  have "\<And>j::nat. j < 5 \<longleftrightarrow> j = 0 \<or> j = 1 \<or> j = 2 \<or> j = 3 \<or> j = 4" by arith
  then show ?thesis by auto
qed

lemma statics_start: "statics_ok (program_start dev)"
  by (simp add: statics_ok_def program_start_def)

lemma transport_frame_statics: "transport_frame s t \<Longrightarrow> statics_ok s \<Longrightarrow> statics_ok t"
  by (simp add: transport_frame_def statics_ok_def)

text \<open>
  Claim C1, evaluated on the stalling panel. \<open>dpf_ax_open\<close> succeeds and leaves the
  good status of its command in the static \<open>ansbuf\<close>. The next command makes seven
  transfers: the envelope, the data, and five status reads that all time out. After
  the fifth failure the stale \<open>ansbuf\<close> is checked and its byte 12 is returned:
  \<open>wrap_scsi\<close> returns 0, the code for success, and not an error.
\<close>

theorem wrap_scsi_stale_status_after_five_failures:
  "(case dpf_ax_open 0 (program_start (script_of stalling_panel)) of
      Some (Some h, s1) \<Rightarrow>
        map_option (\<lambda>(r, d, s2). (r, length (trace s2) - length (trace s1)))
          (wrap_scsi (Some h) (blit_cmd (g_excmd s1) (0, 0, 1, 1)) 16 DIR_OUT (Some [0, 0])
             (blit_len (0, 0, 1, 1)) s1)
    | _ \<Rightarrow> None) = Some (0, 7)"
proof -
  define s0 where "s0 = program_start (script_of stalling_panel)"
  define p :: "byte list" where "p = [0x55, 0x53, 0x42, 0x53, 0, 0, 0, 0, 0, 0, 0, 0, 0]"
  define dpf where "dpf = \<lparr>udev = 0, width = 0, height = 0\<rparr>"
  have st0: "statics_ok s0" by (simp add: s0_def statics_start)
  have dev0: "device s0 = script_of stalling_panel" and tr0: "trace s0 = []"
    by (simp_all add: s0_def program_start_def)
  obtain d a where fa: "transport_frame s0 a" and tra: "length (trace a) = 2"
    and wa: "wrap_scsi (Some dpf) [0xcd, 0, 0, 0, 0, 2, 0, 0, 0, 0, 0, 0, 0, 0, 0, 0] 16 DIR_IN
               (Some [0, 0, 0, 0, 0]) 5 s0 =
             Some (fst (wrap_scsi_status (udev dpf) a), d, snd (wrap_scsi_status (udev dpf) a))"
    using wrap_scsi_reaches_status [of s0 16 "[0xcd, 0, 0, 0, 0, 2, 0, 0, 0, 0, 0, 0, 0, 0, 0, 0]"
             "Some [0, 0, 0, 0, 0]" 5 dpf DIR_IN] st0
    by (auto simp add: dev0 tr0 script_of_def stalling_panel_def)
  have a: "device a = script_of stalling_panel" "length (ansbuf a) = 13"
    using fa st0 by (simp_all add: transport_frame_def statics_ok_def dev0)
  have acked: "fst (wrap_scsi_status (udev dpf) a) = 0"
      "ansbuf (snd (wrap_scsi_status (udev dpf) a)) = p"
      "length (trace (snd (wrap_scsi_status (udev dpf) a))) = 3"
    using status_acked [of a 0 p "udev dpf"]
    by (simp_all add: a tra script_of_def stalling_panel_def status_failed_def p_def)
  define b where "b = snd (wrap_scsi_status (udev dpf) a)"
  have fb: "transport_frame s0 b"
    using fa status_frame [of a "udev dpf"] by (auto simp add: b_def intro: transport_frame_trans)
  obtain w h where s1v: "dpf_ax_open 0 s0 = Some (Some (dpf\<lparr>width := w, height := h\<rparr>),
      b\<lparr>logged := logged b @ [Log_dimensions w h]\<rparr>)"
    by (simp add: dpf_ax_open_def dpf_def [symmetric] wa acked(1) Let_def b_def)
  define s1 where "s1 = b\<lparr>logged := logged b @ [Log_dimensions w h]\<rparr>"
  have f1: "transport_frame s0 s1"
    using fb by (simp add: s1_def transport_frame_def)
  have st1: "statics_ok s1" using f1 st0 by (rule transport_frame_statics)
  have s1: "device s1 = script_of stalling_panel" "length (trace s1) = 3" "ansbuf s1 = p"
    "length (g_excmd s1) = 16"
    using f1 acked(2,3) st1 by (simp_all add: s1_def b_def transport_frame_def dev0 statics_ok_def)
  have len: "blit_len (0, 0, 1, 1) = 2" by (simp add: blit_len_def)
  obtain d' c where fc: "transport_frame s1 c" and abc: "ansbuf c = p" and trc: "length (trace c) = 5"
    and wc: "wrap_scsi (Some (dpf\<lparr>width := w, height := h\<rparr>)) (blit_cmd (g_excmd s1) (0, 0, 1, 1)) 16 DIR_OUT (Some [0, 0]) 2 s1 =
             Some (fst (wrap_scsi_status 0 c), d', snd (wrap_scsi_status 0 c))"
    using wrap_scsi_reaches_status [of s1 16 "blit_cmd (g_excmd s1) (0, 0, 1, 1)"
             "Some [0, 0]" 2 "dpf\<lparr>width := w, height := h\<rparr>" DIR_OUT] st1
    by (auto simp add: s1 script_of_def stalling_panel_def blit_cmd_def dpf_def)
  have c: "device c = script_of stalling_panel"
    using fc by (simp add: transport_frame_def s1)
  have stalled: "fst (wrap_scsi_status 0 c) = 0" "length (trace (snd (wrap_scsi_status 0 c))) = 10"
    using status_stalled [of c 0]
    by (simp_all add: c abc trc all_less_5 script_of_def stalling_panel_def status_failed_def p_def)
  show ?thesis
    unfolding s0_def [symmetric]
    by (simp add: s1v s1_def [symmetric] len wc stalled s1)
qed

section \<open>Blit dispatcher\<close>

lemma scast_as_int: "(scast (r :: 16 word) :: 32 word) = word_of_int (sint r)"
  by simp

lemma low16_minus_1: "(ucast (scast (r :: 16 word) - 1 :: 32 word) :: 16 word) = r - 1"
proof -
  have "(scast r - 1 :: 32 word) = word_of_int (sint r - 1)" by simp
  then have "(ucast (scast r - 1 :: 32 word) :: 16 word) = word_of_int (sint r - 1)"
    by (simp only: ucast_down_wi is_down len_of_numeral_defs) 
  then show ?thesis by simp
qed

lemma low16: "(ucast (scast (r :: 16 word) :: 32 word) :: 16 word) = r"
  by (rule bit_word_eqI) (auto simp add: bit_simps)

lemma byte_lo: "(ucast (x :: 32 word) :: byte) = ucast (ucast x :: 16 word)"
  by (rule bit_word_eqI) (auto simp add: bit_simps)

lemma byte_hi: "(ucast (signed_drop_bit 8 (x :: 32 word)) :: byte) = ucast (drop_bit 8 (ucast x :: 16 word))"
  by (rule bit_word_eqI) (auto simp add: bit_simps)

lemma cmd_byte_lo: "(ucast (scast (r :: 16 word) :: 32 word) :: byte) = ucast r"
  by (simp only: byte_lo [of "scast r"] low16)

lemma cmd_byte_hi: "(ucast (signed_drop_bit 8 (scast (r :: 16 word) :: 32 word)) :: byte) = ucast (drop_bit 8 r)"
  by (simp only: byte_hi [of "scast r"] low16)

lemma cmd_byte_lo_minus_1: "(ucast (scast (r :: 16 word) - 1 :: 32 word) :: byte) = ucast (r - 1)"
  by (simp only: byte_lo [of "scast r - 1"] low16_minus_1)

lemma cmd_byte_hi_minus_1:
  "(ucast (signed_drop_bit 8 (scast (r :: 16 word) - 1 :: 32 word)) :: byte) = ucast (drop_bit 8 (r - 1))"
  by (simp only: byte_hi [of "scast r - 1"] low16_minus_1)

lemma blit_cmd_bytes:
  assumes "length cmd = 16"
  shows "blit_cmd cmd (x0, y0, x1, y1) =
     take 6 cmd @ [USBCMD_BLIT] @ le16 x0 @ le16 y0 @ le16 (x1 - 1) @ le16 (y1 - 1) @ [0]"
proof -
  have n: "16 = Suc (Suc (Suc (Suc (Suc (Suc (Suc (Suc (Suc (Suc (Suc (Suc (Suc (Suc (Suc (Suc 0)))))))))))))))"
    by simp
  obtain c0 c1 c2 c3 c4 c5 c6 c7 c8 c9 c10 c11 c12 c13 c14 c15
    where c: "cmd = [c0, c1, c2, c3, c4, c5, c6, c7, c8, c9, c10, c11, c12, c13, c14, c15]"
    using assms unfolding n by (auto simp add: length_Suc_conv)
  show ?thesis
    unfolding c blit_cmd_def le16_def
    by (simp add: cmd_byte_lo cmd_byte_hi cmd_byte_lo_minus_1 cmd_byte_hi_minus_1)
qed

lemma blit_len_value:
  assumes "sint x0 \<le> sint x1" "sint y0 \<le> sint y1"
    and "(sint x1 - sint x0) * (sint y1 - sint y0) < 2 ^ 30"
  shows "uint (blit_len (x0, y0, x1, y1)) = (sint x1 - sint x0) * (sint y1 - sint y0) * 2"
    and "sint (ucast (blit_len (x0, y0, x1, y1)) :: 32 word) = (sint x1 - sint x0) * (sint y1 - sint y0) * 2"
proof -
  define a where "a = sint x1 - sint x0"
  define b where "b = sint y1 - sint y0"
  have "0 \<le> a" "0 \<le> b" using assms(1,2) by (simp_all add: a_def b_def)
  then have ab: "0 \<le> a * b" "a * b < 1073741824"
    using assms(3) by (simp_all add: a_def b_def)
  have w: "((scast x1 - scast x0) * (scast y1 - scast y0) :: 32 word) = word_of_int (a * b)"
    by (simp add: a_def b_def)
  have s: "sint (word_of_int (a * b) :: 32 word) = a * b"
    unfolding sint_sbintrunc' using ab by (simp add: signed_take_bit_int_eq_self)
  have "blit_len (x0, y0, x1, y1) = push_bit 1 (word_of_int (a * b))"
    unfolding blit_len_def prod.case w
    by (simp only: scast_eq s)
  then have l: "blit_len (x0, y0, x1, y1) = word_of_int (a * b * 2)"
    by (simp add: push_bit_eq_mult)
  have u: "uint (word_of_int (a * b * 2) :: 64 word) = a * b * 2"
    unfolding uint_word_of_int using ab by simp
  show "uint (blit_len (x0, y0, x1, y1)) = (sint x1 - sint x0) * (sint y1 - sint y0) * 2"
    unfolding l a_def [symmetric] b_def [symmetric] by (rule u)
  have c: "(ucast (word_of_int (a * b * 2) :: 64 word) :: 32 word) = word_of_int (a * b * 2)"
    by (simp only: ucast_down_wi is_down len_of_numeral_defs)
  have "sint (word_of_int (a * b * 2) :: 32 word) = a * b * 2"
    unfolding sint_sbintrunc' using ab by (simp add: signed_take_bit_int_eq_self)
  then show "sint (ucast (blit_len (x0, y0, x1, y1)) :: 32 word) = (sint x1 - sint x0) * (sint y1 - sint y0) * 2"
    unfolding l a_def [symmetric] b_def [symmetric] c .
qed

lemma panel_rect_fits:
  fixes x0 y0 x1 y1 :: "16 word"
  assumes "0 \<le> sint x0" "sint x0 \<le> sint x1" "0 \<le> sint y0" "sint y0 \<le> sint y1"
  shows "(sint x1 - sint x0) * (sint y1 - sint y0) < 2 ^ 30"
proof -
  have x1: "sint x1 < 2 ^ 15" using sint_lt [of x1] by simp
  have y1: "sint y1 < 2 ^ 15" using sint_lt [of y1] by simp
  have "(sint x1 - sint x0) * (sint y1 - sint y0) \<le> 32767 * 32767"
    using assms x1 y1 by (intro mult_mono) simp_all
  then show ?thesis by simp
qed

lemma blit_cmd_length: "length (blit_cmd cmd rect) = length cmd"
  by (cases rect) (simp add: blit_cmd_def)

lemma blit_total:
  assumes "statics_ok s"
  shows "\<exists>r d s'. wrap_scsi (Some ctx) (blit_cmd (g_excmd s) rect) 16 DIR_OUT (Some buf) (blit_len rect)
                     (s\<lparr>g_excmd := blit_cmd (g_excmd s) rect\<rparr>) = Some (r, d, s') \<and>
                  dpf_ax_screen_blit (Some ctx) buf rect s = Some ((), s') \<and>
                  transport_frame s s'"
proof -
  let ?s0 = "s\<lparr>g_excmd := blit_cmd (g_excmd s) rect\<rparr>"
  have st: "statics_ok ?s0"
    using assms by (simp add: statics_ok_def blit_cmd_length)
  have f0: "transport_frame s ?s0"
    by (simp add: transport_frame_def blit_cmd_length)
  have "nat 16 \<le> length (blit_cmd (g_excmd s) rect)"
    using assms by (simp add: statics_ok_def blit_cmd_length)
  then obtain r d s' where w: "wrap_scsi (Some ctx) (blit_cmd (g_excmd s) rect) 16 DIR_OUT (Some buf)
       (blit_len rect) ?s0 = Some (r, d, s')" and f: "transport_frame ?s0 s'"
    using wrap_scsi_total [OF st, of 16 "blit_cmd (g_excmd s) rect" ctx DIR_OUT "Some buf" "blit_len rect"]
    by auto
  have "dpf_ax_screen_blit (Some ctx) buf rect s = Some ((), s')"
    by (simp add: dpf_ax_screen_blit_def Let_def w)
  with w f0 f show ?thesis
    by (blast intro: transport_frame_trans)
qed

lemma copy_rows_Some:
  "0 \<le> cpy \<Longrightarrow> 0 \<le> stride \<Longrightarrow> 0 \<le> ps \<Longrightarrow> 0 \<le> pd \<Longrightarrow>
   ps + int rows * stride \<le> int (length src) + stride - cpy \<Longrightarrow>
   cpy \<le> stride \<Longrightarrow>
   pd + int rows * cpy \<le> int (length dst) \<Longrightarrow>
   \<exists>dst'. copy_rows dst pd src ps cpy stride rows = Some dst' \<and> length dst' = length dst"
proof (induction rows arbitrary: dst pd ps)
  case 0
  then show ?case by simp
next
  case (Suc rows)
  have a: "ps + cpy \<le> int (length src)"
  proof -
    have "0 \<le> int rows * stride" using Suc.prems(2) by simp
    then show ?thesis using Suc.prems(5) by (simp add: algebra_simps)
  qed
  have b: "pd + cpy \<le> int (length dst)"
  proof -
    have "0 \<le> int rows * cpy" using Suc.prems(1) by simp
    then show ?thesis using Suc.prems(7) by (simp add: algebra_simps)
  qed
  obtain d1 where d1: "memcpy dst pd src ps cpy = Some d1"
    using memcpy_Some [of cpy ps pd src dst] Suc.prems a b by auto
  have l1: "length d1 = length dst" using d1 by (rule memcpy_length)
  have "\<exists>dst'. copy_rows d1 (pd + cpy) src (ps + stride) cpy stride rows = Some dst' \<and>
          length dst' = length d1"
  proof (rule Suc.IH)
    show "0 \<le> cpy" "0 \<le> stride" "cpy \<le> stride" by fact+
    show "0 \<le> ps + stride" "0 \<le> pd + cpy" using Suc.prems by simp_all
    show "ps + stride + int rows * stride \<le> int (length src) + stride - cpy"
      using Suc.prems(5) by (simp add: algebra_simps)
    show "pd + cpy + int rows * cpy \<le> int (length d1)"
      using Suc.prems(7) by (simp add: algebra_simps l1)
  qed
  then show ?case by (simp add: d1 l1)
qed

lemma wrap_scsi_cmd_failed:
  assumes "statics_ok s" "0 \<le> cmdlen" "cmdlen \<le> 16" "nat cmdlen \<le> length cmd"
    and "r_ret (device s (length (trace s))) \<noteq> 0"
  shows "map_option fst (wrap_scsi (Some ctx) cmd cmdlen out data block_len s) =
           Some (r_ret (device s (length (trace s))))"
proof -
  obtain gb where
    w: "wrap_scsi (Some ctx) cmd cmdlen out data block_len s =
      (let s1 = s\<lparr>g_buf := gb, trace := trace s @ [\<lparr>x_udev = udev ctx, x_endpoint = ENDPT_OUT, x_bytes = gb, x_length = 31, x_timeout = 1000\<rparr>]\<rparr>
       in if r_ret (device s (length (trace s))) \<noteq> 0 then Some (r_ret (device s (length (trace s))), data, s1)
          else (case wrap_scsi_data (udev ctx) out data block_len s1 of
                        (Some r, data', s2) \<Rightarrow> Some (r, data', s2)
                      | (None, data', s2) \<Rightarrow>
                          (let (r, s3) = wrap_scsi_status (udev ctx) s2 in Some (r, data', s3))))"
    using assms(1-4) by (rule wrap_scsi_unfold)
  show ?thesis unfolding w Let_def using assms(5) by simp
qed

section \<open>Dirty-rectangle tracker\<close>

subsection \<open>Flush\<close>

lemma flush_copy:
  assumes "session_inv s" "minx s \<le> maxx s" "miny s \<le> maxy s"
  shows "\<exists>xb. copy_rows (xferBuf s) 0 (lcdBuf s) ((miny s * pwidth s + minx s) * DPF_BPP)
                 ((maxx s - minx s + 1) * DPF_BPP) (pwidth s * DPF_BPP) (nat (maxy s - miny s + 1)) = Some xb \<and>
              length xb = 307200"
proof -
  have inv: "pwidth s = 480" "length (lcdBuf s) = 307200" "length (xferBuf s) = 307200"
    "0 \<le> minx s" "maxx s < 480" "0 \<le> miny s" "maxy s < 320"
    using assms(1) by (simp_all add: session_inv_def)
  define cpy where "cpy = (maxx s - minx s + 1) * 2"
  define rows where "rows = nat (maxy s - miny s + 1)"
  have rows: "int rows = maxy s - miny s + 1" using assms(3) by (simp add: rows_def)
  have cpy: "0 \<le> cpy" "cpy \<le> 960" using assms(2) inv by (simp_all add: cpy_def)
  have r: "0 \<le> int rows" "int rows \<le> 320" using inv assms(3) by (simp_all add: rows)
  have "int rows * cpy \<le> 320 * 960" using r cpy by (intro mult_mono) simp_all
  then have fit: "0 + int rows * cpy \<le> int (length (xferBuf s))" by (simp add: inv)
  have src: "(miny s * 480 + minx s) * 2 + int rows * 960 \<le> int (length (lcdBuf s)) + 960 - cpy"
    using inv assms by (simp add: rows cpy_def)
  have "\<exists>xb. copy_rows (xferBuf s) 0 (lcdBuf s) ((miny s * 480 + minx s) * 2) cpy 960 rows = Some xb \<and>
           length xb = length (xferBuf s)"
    using cpy inv fit src by (intro copy_rows_Some) simp_all
  then show ?thesis
    by (simp add: inv DPF_BPP_def cpy_def rows_def)
qed

lemma main_init_inv: "statics_ok s \<Longrightarrow> session_inv (main_init c s)"
  by (simp add: main_init_def Let_def session_inv_def statics_ok_def DPF_BPP_def)

lemma unplugged_inv: "session_inv unplugged_session"
  unfolding unplugged_session_def by (rule main_init_inv) (rule statics_start)

lemma unplugged_fields:
  "minx unplugged_session = 0" "maxx unplugged_session = 479"
  "miny unplugged_session = 0" "maxy unplugged_session = 319"
  "lcdBuf unplugged_session = replicate 307200 0"
  "DCOLS unplugged_session = 480" "DROWS unplugged_session = 320"
  "pwidth unplugged_session = 480" "pheight unplugged_session = 320"
  by (simp_all add: unplugged_session_def main_init_def Let_def DPF_BPP_def)

lemma flush_result:
  assumes "session_inv s" "minx s \<le> maxx s" "miny s \<le> maxy s"
  shows "\<exists>s'. update_flush s = Some s' \<and> session_inv s' \<and> lcdBuf s' = lcdBuf s \<and>
           minx s' = 479 \<and> maxx s' = 0 \<and> miny s' = 319 \<and> maxy s' = 0"
proof -
  obtain xb where xb: "copy_rows (xferBuf s) 0 (lcdBuf s) ((miny s * pwidth s + minx s) * DPF_BPP)
                 ((maxx s - minx s + 1) * DPF_BPP) (pwidth s * DPF_BPP) (nat (maxy s - miny s + 1)) = Some xb"
    and lxb: "length xb = 307200"
    using flush_copy [OF assms] by auto
  define s1 where "s1 = s\<lparr>xferBuf := xb\<rparr>"
  have inv1: "session_inv s1" using assms(1) lxb by (simp add: s1_def session_inv_def statics_ok_def)
  then obtain ctx where ctx: "dpfh s1 = Some ctx" by (auto simp add: session_inv_def)
  define rect where "rect = (word_of_int (minx s1) :: 16 word, word_of_int (miny s1) :: 16 word,
                             word_of_int (maxx s1 + 1) :: 16 word, word_of_int (maxy s1 + 1) :: 16 word)"
  obtain s2 where b: "dpf_ax_screen_blit (Some ctx) (xferBuf s1) rect s1 = Some ((), s2)"
    and f: "transport_frame s1 s2"
    using blit_total [of s1 ctx rect "xferBuf s1"] inv1 by (auto simp add: session_inv_def)
  define s3 where "s3 = s2\<lparr>minx := pwidth s2 - 1, maxx := 0, miny := pheight s2 - 1, maxy := 0\<rparr>"
  have u: "update_flush s = Some s3"
    using assms(2,3) b [unfolded rect_def]
    by (simp add: update_flush_def Let_def xb s1_def [symmetric] ctx s3_def)
  have "session_inv s3" "lcdBuf s3 = lcdBuf s" "minx s3 = 479" "maxx s3 = 0" "miny s3 = 319" "maxy s3 = 0"
    using inv1 f by (simp_all add: s3_def s1_def session_inv_def transport_frame_def statics_ok_def)
  with u show ?thesis by blast
qed

text \<open>
  Claim C3. In every state of a session, a flush of a non-empty dirty rectangle returns,
  whatever the panel answers to the blit (the statement holds for every reply stream),
  and leaves the rectangle empty: it is \<open>(479, 0, 319, 0)\<close>, so \<open>minx > maxx\<close>. A
  second flush right after does nothing: the transfer is not retried.
\<close>

theorem flush_resets_dirty_rectangle:
  assumes "session_inv s" and "\<not> (minx s > maxx s \<or> miny s > maxy s)"
  shows "\<exists>s'. update_flush s = Some s' \<and> maxx s' < minx s' \<and>
           (minx s', maxx s', miny s', maxy s') = (479, 0, 319, 0) \<and> update_flush s' = Some s'"
proof -
  obtain s' where "update_flush s = Some s'" "minx s' = 479" "maxx s' = 0" "miny s' = 319" "maxy s' = 0"
    using flush_result [of s] assms by auto
  then show ?thesis by (auto simp add: update_flush_def)
qed

theorem flush_resets_dirty_rectangle_witness:
  "session_inv unplugged_session \<and> minx unplugged_session \<le> maxx unplugged_session \<and>
   miny unplugged_session \<le> maxy unplugged_session \<and>
   (\<exists>s'. update_flush unplugged_session = Some s' \<and> maxx s' < minx s')"
  using flush_resets_dirty_rectangle [of unplugged_session] unplugged_inv
  by (auto simp add: unplugged_fields)

text \<open>
  Claim C10. A flush made while the dirty rectangle is empty (\<open>minx > maxx\<close> or
  \<open>miny > maxy\<close>) returns the state it was given: the trace of transfers, both buffers
  and the rectangle are unchanged.
\<close>

theorem flush_empty_is_noop: "minx s > maxx s \<or> miny s > maxy s \<Longrightarrow> update_flush s = Some s"
  by (simp add: update_flush_def)

theorem flush_empty_is_noop_witness:
  "\<exists>s. update_flush unplugged_session = Some s \<and> maxx s < minx s \<and> update_flush s = Some s"
proof -
  obtain s where s: "update_flush unplugged_session = Some s" "minx s = 479" "maxx s = 0"
    using flush_result [of unplugged_session] unplugged_inv by (auto simp add: unplugged_fields)
  then have "update_flush s = Some s" by (intro flush_empty_is_noop) simp
  with s show ?thesis by auto
qed

text \<open>
  Claim C7. When the canvas size is not zero and the coordinates, reduced by the canvas
  size with C's \<open>%\<close>, fall outside the panel, \<open>drv_set_pixel\<close> returns normally and
  the only change to the state is one more entry in the log.
\<close>

theorem set_pixel_out_of_bounds_is_noop:
  assumes "DCOLS s \<noteq> 0" "DROWS s \<noteq> 0"
    and "x smod DCOLS s < 0 \<or> pwidth s \<le> x smod DCOLS s \<or> y smod DROWS s < 0 \<or> pheight s \<le> y smod DROWS s"
  shows "drv_set_pixel x y pix s =
           Some (s\<lparr>logged := logged s @ [Err_out_of_bounds x y (x smod DCOLS s) (y smod DROWS s)]\<rparr>)"
  using assms by (simp add: drv_set_pixel_def Let_def)

theorem set_pixel_out_of_bounds_is_noop_witness:
  "(- 1) smod DCOLS unplugged_session < 0 \<and>
   drv_set_pixel (- 1) 5 \<lparr>R = 255, G = 255, B = 255, A = 255\<rparr> unplugged_session =
     Some (unplugged_session\<lparr>logged := logged unplugged_session @ [Err_out_of_bounds (- 1) 5 (- 1) 5]\<rparr>)"
  using set_pixel_out_of_bounds_is_noop [of unplugged_session "- 1" 5 "\<lparr>R = 255, G = 255, B = 255, A = 255\<rparr>"]
  by (simp add: unplugged_fields signed_modulo_int_def)

subsection \<open>Sequences of pixel writes\<close>

lemma smod_small: "0 \<le> x \<Longrightarrow> x < n \<Longrightarrow> x smod n = (x::int)"
  by (simp add: signed_modulo_int_def sgn_if)

lemma pixel_index_inj:
  assumes "in_panel x y" "in_panel x' y'" "(x, y) \<noteq> (x', y')"
  shows "nat ((y * 480 + x) * 2) \<noteq> nat ((y' * 480 + x') * 2) \<and>
   nat ((y * 480 + x) * 2) \<noteq> nat ((y' * 480 + x') * 2 + 1) \<and>
   nat ((y * 480 + x) * 2 + 1) \<noteq> nat ((y' * 480 + x') * 2) \<and>
   nat ((y * 480 + x) * 2 + 1) \<noteq> nat ((y' * 480 + x') * 2 + 1)"
proof -
  define i where "i = y * 480 + x"
  define j where "j = y' * 480 + x'"
  have b: "0 \<le> x" "x < 480" "0 \<le> y" "0 \<le> x'" "x' < 480" "0 \<le> y'"
    using assms(1,2) by (simp_all add: in_panel_def)
  have "i \<noteq> j"
  proof
    assume "i = j"
    then have e: "y * 480 + x = y' * 480 + x'" by (simp add: i_def j_def)
    have "y = y'" using e b by arith
    with e have "x = x'" by simp
    with \<open>y = y'\<close> assms(3) show False by simp
  qed
  moreover have "0 \<le> i" "0 \<le> j" using b by (simp_all add: i_def j_def)
  ultimately have "nat (i * 2) \<noteq> nat (j * 2) \<and> nat (i * 2) \<noteq> nat (j * 2 + 1) \<and>
     nat (i * 2 + 1) \<noteq> nat (j * 2) \<and> nat (i * 2 + 1) \<noteq> nat (j * 2 + 1)"
    by auto
  then show ?thesis unfolding i_def j_def .
qed

lemma set_pixel_step:
  assumes "session_inv s" "in_panel x y"
  shows "\<exists>s1. drv_set_pixel x y pix s = Some s1 \<and> session_inv s1 \<and>
           ((RGB565_0 pix, RGB565_1 pix) \<noteq> stored s x y \<longrightarrow>
              minx s1 = min x (minx s) \<and> maxx s1 = max x (maxx s) \<and>
              miny s1 = min y (miny s) \<and> maxy s1 = max y (maxy s)) \<and>
           ((RGB565_0 pix, RGB565_1 pix) = stored s x y \<longrightarrow> s1 = s) \<and>
           stored s1 x y = (RGB565_0 pix, RGB565_1 pix) \<and>
           (\<forall>x' y'. in_panel x' y' \<and> (x', y') \<noteq> (x, y) \<longrightarrow> stored s1 x' y' = stored s x' y')"
proof -
  have inv: "pwidth s = 480" "pheight s = 320" "DCOLS s = 480" "DROWS s = 320"
    using assms(1) by (simp_all add: session_inv_def)
  have len: "length (lcdBuf s) = 307200"
    using assms(1) by (simp add: session_inv_def)
  have xy: "0 \<le> x" "x < 480" "0 \<le> y" "y < 320" using assms(2) by (simp_all add: in_panel_def)
  have red: "x smod 480 = x" "y smod 320 = y" using xy by (simp_all add: smod_small)
  define i where "i = (y * 480 + x) * 2"
  have i: "0 \<le> i" "i + 1 < 307200" using xy by (simp_all add: i_def)
  have st: "stored s x y = (lcdBuf s ! nat i, lcdBuf s ! nat (i + 1))"
    unfolding stored_def inv DPF_BPP_def i_def by (rule refl)
  have unf: "drv_set_pixel x y pix s =
     (if lcdBuf s ! nat i \<noteq> RGB565_0 pix \<or> lcdBuf s ! nat (i + 1) \<noteq> RGB565_1 pix
      then Some (s\<lparr>lcdBuf := (lcdBuf s)[nat i := RGB565_0 pix, nat (i + 1) := RGB565_1 pix],
                            minx := (if x < minx s then x else minx s),
                            maxx := (if x > maxx s then x else maxx s),
                            miny := (if y < miny s then y else miny s),
                            maxy := (if y > maxy s then y else maxy s)\<rparr>)
      else Some s)"
    unfolding drv_set_pixel_def Let_def inv red DPF_BPP_def i_def [symmetric]
    using xy i by (simp add: len)
  show ?thesis
  proof (cases "(RGB565_0 pix, RGB565_1 pix) = stored s x y")
    case True
    then have "drv_set_pixel x y pix s = Some s"
      unfolding unf st by auto
    with True assms(1) show ?thesis by simp
  next
    case False
    define s1 where "s1 = s\<lparr>lcdBuf := (lcdBuf s)[nat i := RGB565_0 pix, nat (i + 1) := RGB565_1 pix],
                            minx := (if x < minx s then x else minx s),
                            maxx := (if x > maxx s then x else maxx s),
                            miny := (if y < miny s then y else miny s),
                            maxy := (if y > maxy s then y else maxy s)\<rparr>"
    have d: "drv_set_pixel x y pix s = Some s1"
      using False unfolding unf st s1_def by auto
    have inv1: "session_inv s1"
      using assms(1) xy by (simp add: s1_def session_inv_def statics_ok_def)
    have rect: "minx s1 = min x (minx s) \<and> maxx s1 = max x (maxx s) \<and>
              miny s1 = min y (miny s) \<and> maxy s1 = max y (maxy s)"
      by (simp add: s1_def min_def max_def)
    have ni: "nat i \<noteq> nat (i + 1)" "nat i < length (lcdBuf s)" "nat (i + 1) < length (lcdBuf s)"
      using i by (simp_all add: len)
    have p1: "pwidth s1 = 480" by (simp add: s1_def inv)
    have st1: "stored s1 x y = (lcdBuf s1 ! nat i, lcdBuf s1 ! nat (i + 1))"
      unfolding stored_def p1 DPF_BPP_def i_def by (rule refl)
    have here: "stored s1 x y = (RGB565_0 pix, RGB565_1 pix)"
      unfolding st1 using ni by (simp add: s1_def)
    have other: "stored s1 x' y' = stored s x' y'" if "in_panel x' y'" "(x', y') \<noteq> (x, y)" for x' y'
      using pixel_index_inj [OF that(1) assms(2) that(2)]
      unfolding stored_def DPF_BPP_def
      by (simp add: s1_def inv i_def)
    from d inv1 rect here other False show ?thesis by blast
  qed
qed

lemma changes_Cons:
  "changes s ((x, y, pix) # rest) =
     (if (RGB565_0 pix, RGB565_1 pix) \<noteq> stored s x y then [(x, y)] else []) @ changes s rest"
  by (simp add: changes_def)

lemma changes_cong:
  assumes "\<And>x y pix. (x, y, pix) \<in> set calls \<Longrightarrow> stored t x y = stored s x y"
  shows "changes t calls = changes s calls"
  unfolding changes_def
  using assms by (intro arg_cong [where f = "map _"] filter_cong) auto

lemma set_pixels_rect:
  assumes "session_inv s" "\<forall>(x, y, pix) \<in> set calls. in_panel x y"
    and "distinct (map (\<lambda>(x, y, pix). (x, y)) calls)"
  shows "\<exists>s'. set_pixels calls s = Some s' \<and> session_inv s' \<and>
           minx s' = fold min (map fst (changes s calls)) (minx s) \<and>
           maxx s' = fold max (map fst (changes s calls)) (maxx s) \<and>
           miny s' = fold min (map snd (changes s calls)) (miny s) \<and>
           maxy s' = fold max (map snd (changes s calls)) (maxy s)"
  using assms
proof (induction calls arbitrary: s)
  case Nil
  then show ?case by (simp add: changes_def)
next
  case (Cons c rest)
  obtain x y pix where c: "c = (x, y, pix)" by (cases c) auto
  have xy: "in_panel x y" using Cons.prems(2) by (simp add: c)
  obtain s1 where d: "drv_set_pixel x y pix s = Some s1" and inv1: "session_inv s1"
    and ch: "(RGB565_0 pix, RGB565_1 pix) \<noteq> stored s x y \<Longrightarrow>
              minx s1 = min x (minx s) \<and> maxx s1 = max x (maxx s) \<and>
              miny s1 = min y (miny s) \<and> maxy s1 = max y (maxy s)"
    and same: "(RGB565_0 pix, RGB565_1 pix) = stored s x y \<Longrightarrow> s1 = s"
    and other: "\<And>x' y'. in_panel x' y' \<Longrightarrow> (x', y') \<noteq> (x, y) \<Longrightarrow> stored s1 x' y' = stored s x' y'"
    using set_pixel_step [OF Cons.prems(1) xy, of pix] by blast
  have rest_in: "\<forall>(x, y, pix) \<in> set rest. in_panel x y" using Cons.prems(2) by simp
  have rest_d: "distinct (map (\<lambda>(x, y, pix). (x, y)) rest)" using Cons.prems(3) by simp
  have cr: "changes s1 rest = changes s rest"
  proof (rule changes_cong)
    fix x' y' pix' assume m: "(x', y', pix') \<in> set rest"
    then have "in_panel x' y'" using rest_in by auto
    moreover have "(x', y') \<noteq> (x, y)"
      using Cons.prems(3) m by (force simp add: c)
    ultimately show "stored s1 x' y' = stored s x' y'" by (rule other)
  qed
  obtain s' where r: "set_pixels rest s1 = Some s'" and inv': "session_inv s'"
    and b: "minx s' = fold min (map fst (changes s1 rest)) (minx s1)"
           "maxx s' = fold max (map fst (changes s1 rest)) (maxx s1)"
           "miny s' = fold min (map snd (changes s1 rest)) (miny s1)"
           "maxy s' = fold max (map snd (changes s1 rest)) (maxy s1)"
    using Cons.IH [OF inv1 rest_in rest_d] by blast
  have sp: "set_pixels (c # rest) s = Some s'" by (simp add: c d r)
  show ?case
  proof (cases "(RGB565_0 pix, RGB565_1 pix) = stored s x y")
    case True
    then have "s1 = s" by (rule same)
    with True sp inv' b show ?thesis
      by (simp add: c changes_Cons cr)
  next
    case False
    with ch have "minx s1 = min x (minx s) \<and> maxx s1 = max x (maxx s) \<and>
              miny s1 = min y (miny s) \<and> maxy s1 = max y (maxy s)" by simp
    with False sp inv' b show ?thesis
      by (simp add: c changes_Cons cr)
  qed
qed

lemma fold_min_tight:
  fixes m :: int
  assumes "xs \<noteq> []" "\<forall>x \<in> set xs. x \<le> m"
  shows "fold min xs m = Min (set xs)"
proof -
  have "fold min xs m = Min (set (m # xs))" by (simp only: Min.set_eq_fold)
  also have "\<dots> = min m (Min (set xs))" using assms(1) by simp
  also have "\<dots> = Min (set xs)"
  proof -
    obtain x where "x \<in> set xs" using assms(1) by (cases xs) auto
    then have "Min (set xs) \<le> x" "x \<le> m" using assms(2) by (simp_all add: Min_le)
    then have "Min (set xs) \<le> m" by (rule order_trans)
    then show ?thesis by (rule min_absorb2)
  qed
  finally show ?thesis .
qed

lemma fold_max_tight:
  fixes m :: int
  assumes "xs \<noteq> []" "\<forall>x \<in> set xs. m \<le> x"
  shows "fold max xs m = Max (set xs)"
proof -
  have "fold max xs m = Max (set (m # xs))" by (simp only: Max.set_eq_fold)
  also have "\<dots> = max m (Max (set xs))" using assms(1) by simp
  also have "\<dots> = Max (set xs)"
  proof -
    obtain x where "x \<in> set xs" using assms(1) by (cases xs) auto
    then have "m \<le> x" "x \<le> Max (set xs)" using assms(2) by (simp_all add: Max_ge)
    then have "m \<le> Max (set xs)" by (rule order_trans)
    then show ?thesis by (rule max_absorb2)
  qed
  finally show ?thesis .
qed

lemma changes_in_panel:
  assumes "\<forall>(x, y, pix) \<in> set calls. in_panel x y" "(x, y) \<in> set (changes s calls)"
  shows "in_panel x y"
  using assms by (auto simp add: changes_def)

text \<open>
  Claim C5, amended. Start from a state of a session whose dirty rectangle is the one a
  flush leaves, \<open>(479, 0, 319, 0)\<close>, and make any sequence of \<open>drv_set_pixel\<close> calls to
  distinct coordinates of the panel. All calls return, and the tracked rectangle is the
  tight bounding box of the coordinates whose packed colour differed from the stored
  one; if there is no such coordinate the rectangle is still \<open>(479, 0, 319, 0)\<close>.
\<close>

theorem dirty_rectangle_bounds_changed_pixels:
  assumes "session_inv s" and "(minx s, maxx s, miny s, maxy s) = (479, 0, 319, 0)"
    and "\<forall>(x, y, pix) \<in> set calls. in_panel x y"
    and "distinct (map (\<lambda>(x, y, pix). (x, y)) calls)"
  shows "\<exists>s'. set_pixels calls s = Some s' \<and>
     (if changes s calls = [] then (minx s', maxx s', miny s', maxy s') = (479, 0, 319, 0)
      else minx s' = Min (fst ` set (changes s calls)) \<and> maxx s' = Max (fst ` set (changes s calls)) \<and>
           miny s' = Min (snd ` set (changes s calls)) \<and> maxy s' = Max (snd ` set (changes s calls)))"
proof -
  obtain s' where r: "set_pixels calls s = Some s'"
    and b: "minx s' = fold min (map fst (changes s calls)) (minx s)"
           "maxx s' = fold max (map fst (changes s calls)) (maxx s)"
           "miny s' = fold min (map snd (changes s calls)) (miny s)"
           "maxy s' = fold max (map snd (changes s calls)) (maxy s)"
    using set_pixels_rect [OF assms(1,3,4)] by blast
  have start: "minx s = 479" "maxx s = 0" "miny s = 319" "maxy s = 0" using assms(2) by simp_all
  show ?thesis
  proof (cases "changes s calls = []")
    case True
    with r b start show ?thesis by simp
  next
    case False
    have p: "\<And>x y. (x, y) \<in> set (changes s calls) \<Longrightarrow> 0 \<le> x \<and> x \<le> 479 \<and> 0 \<le> y \<and> y \<le> 319"
      using changes_in_panel [OF assms(3)] by (fastforce simp add: in_panel_def)
    have "fold min (map fst (changes s calls)) 479 = Min (set (map fst (changes s calls)))"
      using False p by (intro fold_min_tight) auto
    moreover have "fold max (map fst (changes s calls)) 0 = Max (set (map fst (changes s calls)))"
      using False p by (intro fold_max_tight) auto
    moreover have "fold min (map snd (changes s calls)) 319 = Min (set (map snd (changes s calls)))"
      using False p by (intro fold_min_tight) auto
    moreover have "fold max (map snd (changes s calls)) 0 = Max (set (map snd (changes s calls)))"
      using False p by (intro fold_max_tight) auto
    ultimately show ?thesis
      using False r b start by simp
  qed
qed

text \<open>
  Claim C5 as stated fails. After the first flush of a session the display buffer is
  all zero; writing a black pixel at \<open>(10, 10)\<close> changes nothing, and the tracked
  rectangle stays \<open>(479, 0, 319, 0)\<close> instead of the bounding box \<open>(10, 10, 10, 10)\<close>
  of the written coordinate.
\<close>

theorem unchanged_pixel_leaves_rectangle_empty:
  "(case update_flush unplugged_session of
      None \<Rightarrow> None
    | Some s \<Rightarrow> map_option (\<lambda>s'. (minx s', maxx s', miny s', maxy s'))
                 (drv_set_pixel 10 10 \<lparr>R = 0, G = 0, B = 0, A = 255\<rparr> s)) = Some (479, 0, 319, 0)"
proof -
  obtain s where s: "update_flush unplugged_session = Some s" "session_inv s"
    "lcdBuf s = replicate 307200 0" "minx s = 479" "maxx s = 0" "miny s = 319" "maxy s = 0"
    using flush_result [of unplugged_session] unplugged_inv by (auto simp add: unplugged_fields)
  have "stored s 10 10 = (0, 0)"
    using s(2,3) by (simp add: stored_def session_inv_def DPF_BPP_def)
  then have "(RGB565_0 \<lparr>R = 0, G = 0, B = 0, A = 255\<rparr>, RGB565_1 \<lparr>R = 0, G = 0, B = 0, A = 255\<rparr>) = stored s 10 10"
    by (simp add: RGB565_0_def RGB565_1_def)
  then have "drv_set_pixel 10 10 \<lparr>R = 0, G = 0, B = 0, A = 255\<rparr> s = Some s"
    using set_pixel_step [OF s(2), of 10 10 "\<lparr>R = 0, G = 0, B = 0, A = 255\<rparr>"]
    by (auto simp add: in_panel_def)
  with s show ?thesis by simp
qed

theorem dirty_rectangle_bounds_changed_pixels_witness:
  "\<exists>s s'. update_flush unplugged_session = Some s \<and>
     set_pixels [(10, 10, \<lparr>R = 255, G = 0, B = 0, A = 255\<rparr>), (20, 20, \<lparr>R = 0, G = 255, B = 0, A = 255\<rparr>)] s = Some s' \<and>
     (minx s', maxx s', miny s', maxy s') = (10, 20, 10, 20)"
proof -
  obtain s where s: "update_flush unplugged_session = Some s" "session_inv s"
    "lcdBuf s = replicate 307200 0" "minx s = 479" "maxx s = 0" "miny s = 319" "maxy s = 0"
    using flush_result [of unplugged_session] unplugged_inv by (auto simp add: unplugged_fields)
  let ?calls = "[(10, 10, \<lparr>R = 255, G = 0, B = 0, A = 255\<rparr>), (20, 20, \<lparr>R = 0, G = 255, B = 0, A = 255\<rparr>)]"
  have st: "stored s 10 10 = (0, 0)" "stored s 20 20 = (0, 0)"
    using s(2,3) by (simp_all add: stored_def session_inv_def DPF_BPP_def)
  have ch: "changes s ?calls = [(10, 10), (20, 20)]"
    by (simp add: changes_def st RGB565_0_def RGB565_1_def)
  show ?thesis
    using dirty_rectangle_bounds_changed_pixels [of s ?calls] s
    by (auto simp add: ch in_panel_def)
qed

section \<open>Blit results and encoding\<close>

text \<open>
  Claim C2 as stated fails. The same blit call is made on a panel that accepts it and
  on a panel that is gone. \<open>wrap_scsi\<close> returns 0 in the first run and \<open>- 4\<close> in the
  second; \<open>dpf_ax_screen_blit\<close> hands its caller the same value, \<open>()\<close>, in both.
\<close>

theorem blit_returns_nothing:
  "map_option fst (dpf_ax_screen_blit (Some \<lparr>udev = 0, width = 480, height = 320\<rparr>) [0, 0] (0, 0, 1, 1)
      (program_start (script_of accepting_panel))) = Some () \<and>
   map_option fst (dpf_ax_screen_blit (Some \<lparr>udev = 0, width = 480, height = 320\<rparr>) [0, 0] (0, 0, 1, 1)
      (program_start (script_of []))) = Some () \<and>
   map_option fst (wrap_scsi (Some \<lparr>udev = 0, width = 480, height = 320\<rparr>)
      (blit_cmd (g_excmd (program_start (script_of accepting_panel))) (0, 0, 1, 1)) 16 DIR_OUT (Some [0, 0])
      (blit_len (0, 0, 1, 1))
      ((program_start (script_of accepting_panel))
         \<lparr>g_excmd := blit_cmd (g_excmd (program_start (script_of accepting_panel))) (0, 0, 1, 1)\<rparr>)) = Some 0 \<and>
   map_option fst (wrap_scsi (Some \<lparr>udev = 0, width = 480, height = 320\<rparr>)
      (blit_cmd (g_excmd (program_start (script_of []))) (0, 0, 1, 1)) 16 DIR_OUT (Some [0, 0])
      (blit_len (0, 0, 1, 1))
      ((program_start (script_of []))
         \<lparr>g_excmd := blit_cmd (g_excmd (program_start (script_of []))) (0, 0, 1, 1)\<rparr>)) = Some (- 4)"
proof -
  let ?h = "\<lparr>udev = 0, width = 480, height = 320\<rparr>"
  let ?a = "program_start (script_of accepting_panel)"
  let ?b = "program_start (script_of [])"
  have len: "blit_len (0, 0, 1, 1) = 2" by (simp add: blit_len_def)
  have b1: "map_option fst (dpf_ax_screen_blit (Some ?h) [0, 0] (0, 0, 1, 1) ?a) = Some ()"
    using blit_total [OF statics_start, of ?h "script_of accepting_panel" "(0, 0, 1, 1)" "[0, 0]"] by auto
  have b2: "map_option fst (dpf_ax_screen_blit (Some ?h) [0, 0] (0, 0, 1, 1) ?b) = Some ()"
    using blit_total [OF statics_start, of ?h "script_of []" "(0, 0, 1, 1)" "[0, 0]"] by auto
  have sa: "statics_ok (?a\<lparr>g_excmd := blit_cmd (g_excmd ?a) (0, 0, 1, 1)\<rparr>)"
    and sb: "statics_ok (?b\<lparr>g_excmd := blit_cmd (g_excmd ?b) (0, 0, 1, 1)\<rparr>)"
    by (simp_all add: statics_ok_def program_start_def blit_cmd_length)
  have w1: "map_option fst (wrap_scsi (Some ?h) (blit_cmd (g_excmd ?a) (0, 0, 1, 1)) 16 DIR_OUT (Some [0, 0])
      (blit_len (0, 0, 1, 1)) (?a\<lparr>g_excmd := blit_cmd (g_excmd ?a) (0, 0, 1, 1)\<rparr>)) = Some 0"
  proof -
    let ?s = "?a\<lparr>g_excmd := blit_cmd (g_excmd ?a) (0, 0, 1, 1)\<rparr>"
    obtain d s2 where fr: "transport_frame ?s s2" and tr: "length (trace s2) = 2"
      and w: "wrap_scsi (Some ?h) (blit_cmd (g_excmd ?a) (0, 0, 1, 1)) 16 DIR_OUT (Some [0, 0]) 2 ?s =
               Some (fst (wrap_scsi_status (udev ?h) s2), d, snd (wrap_scsi_status (udev ?h) s2))"
      using wrap_scsi_reaches_status [OF sa, of 16 "blit_cmd (g_excmd ?a) (0, 0, 1, 1)" "Some [0, 0]" 2 ?h DIR_OUT]
      by (auto simp add: program_start_def script_of_def accepting_panel_def blit_cmd_length)
    have s2: "device s2 = script_of accepting_panel" "length (ansbuf s2) = 13"
      using fr by (simp_all add: transport_frame_def program_start_def)
    have "fst (wrap_scsi_status (udev ?h) s2) = 0"
      using status_acked(1) [of s2 0 "[0x55, 0x53, 0x42, 0x53, 0, 0, 0, 0, 0, 0, 0, 0, 0]" "udev ?h"]
      by (simp add: s2 tr script_of_def accepting_panel_def status_failed_def)
    then show ?thesis by (simp add: len w)
  qed
  have w2: "map_option fst (wrap_scsi (Some ?h) (blit_cmd (g_excmd ?b) (0, 0, 1, 1)) 16 DIR_OUT (Some [0, 0])
      (blit_len (0, 0, 1, 1)) (?b\<lparr>g_excmd := blit_cmd (g_excmd ?b) (0, 0, 1, 1)\<rparr>)) = Some (- 4)"
    using wrap_scsi_cmd_failed [OF sb, of 16 "blit_cmd (g_excmd ?b) (0, 0, 1, 1)" ?h DIR_OUT "Some [0, 0]" "blit_len (0, 0, 1, 1)"]
    by (simp add: program_start_def script_of_def blit_cmd_length)
  from b1 b2 w1 w2 show ?thesis by simp
qed

text \<open>
  Claim C2, amended. For every blit call with an open handle, the one \<open>wrap_scsi\<close> call
  it makes returns some code \<open>r\<close>, and \<open>dpf_ax_screen_blit\<close> returns no value: the
  caller gets the state \<open>wrap_scsi\<close> left and not \<open>r\<close>.
\<close>

theorem blit_drops_transport_result:
  assumes "statics_ok s"
  shows "\<exists>r d s'. wrap_scsi (Some ctx) (blit_cmd (g_excmd s) rect) 16 DIR_OUT (Some buf) (blit_len rect)
                     (s\<lparr>g_excmd := blit_cmd (g_excmd s) rect\<rparr>) = Some (r, d, s') \<and>
                  dpf_ax_screen_blit (Some ctx) buf rect s = Some ((), s')"
  using blit_total [OF assms, of ctx rect buf] by blast

theorem blit_drops_transport_result_witness:
  "statics_ok (program_start (script_of [])) \<and>
   (\<exists>r d s'. wrap_scsi (Some \<lparr>udev = 0, width = 480, height = 320\<rparr>)
                (blit_cmd (g_excmd (program_start (script_of []))) (0, 0, 1, 1)) 16 DIR_OUT (Some [0, 0])
                (blit_len (0, 0, 1, 1))
                ((program_start (script_of []))
                   \<lparr>g_excmd := blit_cmd (g_excmd (program_start (script_of []))) (0, 0, 1, 1)\<rparr>) = Some (r, d, s') \<and>
              dpf_ax_screen_blit (Some \<lparr>udev = 0, width = 480, height = 320\<rparr>) [0, 0] (0, 0, 1, 1)
                (program_start (script_of [])) = Some ((), s'))"
  using blit_drops_transport_result [OF statics_start, of "\<lparr>udev = 0, width = 480, height = 320\<rparr>" "script_of []" "(0, 0, 1, 1)" "[0, 0]"]
    statics_start [of "script_of []"]
  by simp

text \<open>
  Claim C8. For every blit call on a rectangle \<open>[x0, y0, x1, y1)\<close>: the 16 command
  bytes handed to \<open>wrap_scsi\<close> are the six leading bytes of \<open>g_excmd\<close> (never written:
  \<open>cd 00 00 00 00 06\<close>), the blit opcode \<open>0x12\<close>, then \<open>x0\<close>, \<open>y0\<close>, \<open>x1 - 1\<close> and
  \<open>y1 - 1\<close> as 16-bit little-endian values, then a zero byte, and the direction is
  \<open>DIR_OUT\<close>. Where \<open>x0 \<le> x1\<close>, \<open>y0 \<le> y1\<close> and the area is below \<open>2 ^ 30\<close> pixels,
  as it is for every rectangle of non-negative \<open>short\<close> coordinates, the length handed
  over is \<open>(x1 - x0) * (y1 - y0) * 2\<close>, also after its conversion to \<open>int\<close> for the
  data phase.
\<close>

theorem blit_command_encoding:
  assumes "length (g_excmd s) = 16"
  shows "blit_cmd (g_excmd s) (x0, y0, x1, y1) =
           take 6 (g_excmd s) @ [0x12] @ le16 x0 @ le16 y0 @ le16 (x1 - 1) @ le16 (y1 - 1) @ [0]
         \<and> dpf_ax_screen_blit h buf (x0, y0, x1, y1) s =
             map_option (\<lambda>(r, d, s'). ((), s'))
               (wrap_scsi h (blit_cmd (g_excmd s) (x0, y0, x1, y1)) 16 DIR_OUT (Some buf)
                  (blit_len (x0, y0, x1, y1)) (s\<lparr>g_excmd := blit_cmd (g_excmd s) (x0, y0, x1, y1)\<rparr>))
         \<and> (sint x0 \<le> sint x1 \<and> sint y0 \<le> sint y1 \<and>
              (sint x1 - sint x0) * (sint y1 - sint y0) < 2 ^ 30 \<longrightarrow>
              uint (blit_len (x0, y0, x1, y1)) = (sint x1 - sint x0) * (sint y1 - sint y0) * 2 \<and>
              sint (ucast (blit_len (x0, y0, x1, y1)) :: 32 word) =
                (sint x1 - sint x0) * (sint y1 - sint y0) * 2)
         \<and> (0 \<le> sint x0 \<and> sint x0 \<le> sint x1 \<and> 0 \<le> sint y0 \<and> sint y0 \<le> sint y1 \<longrightarrow>
              (sint x1 - sint x0) * (sint y1 - sint y0) < 2 ^ 30)"
proof -
  have "dpf_ax_screen_blit h buf (x0, y0, x1, y1) s =
             map_option (\<lambda>(r, d, s'). ((), s'))
               (wrap_scsi h (blit_cmd (g_excmd s) (x0, y0, x1, y1)) 16 DIR_OUT (Some buf)
                  (blit_len (x0, y0, x1, y1)) (s\<lparr>g_excmd := blit_cmd (g_excmd s) (x0, y0, x1, y1)\<rparr>))"
    by (simp add: dpf_ax_screen_blit_def Let_def split: option.splits)
  moreover have "blit_cmd (g_excmd s) (x0, y0, x1, y1) =
           take 6 (g_excmd s) @ [0x12] @ le16 x0 @ le16 y0 @ le16 (x1 - 1) @ le16 (y1 - 1) @ [0]"
    using blit_cmd_bytes [OF assms, of x0 y0 x1 y1] by (simp add: USBCMD_BLIT_def)
  moreover have "sint x0 \<le> sint x1 \<and> sint y0 \<le> sint y1 \<and>
              (sint x1 - sint x0) * (sint y1 - sint y0) < 2 ^ 30 \<longrightarrow>
              uint (blit_len (x0, y0, x1, y1)) = (sint x1 - sint x0) * (sint y1 - sint y0) * 2 \<and>
              sint (ucast (blit_len (x0, y0, x1, y1)) :: 32 word) =
                (sint x1 - sint x0) * (sint y1 - sint y0) * 2"
    using blit_len_value [of x0 x1 y0 y1] by blast
  moreover have "0 \<le> sint x0 \<and> sint x0 \<le> sint x1 \<and> 0 \<le> sint y0 \<and> sint y0 \<le> sint y1 \<longrightarrow>
              (sint x1 - sint x0) * (sint y1 - sint y0) < 2 ^ 30"
    using panel_rect_fits [of x0 x1 y0 y1] by blast
  ultimately show ?thesis by blast
qed

theorem blit_command_encoding_witness:
  "blit_cmd (g_excmd (program_start (script_of []))) (10, 10, 21, 21) =
     [0xcd, 0, 0, 0, 0, 6, 0x12, 10, 0, 10, 0, 20, 0, 20, 0, 0]
   \<and> uint (blit_len (10, 10, 21, 21)) = 242
   \<and> sint (ucast (blit_len (10, 10, 21, 21)) :: 32 word) = 242"
  using blit_command_encoding [where s = "program_start (script_of [])" and ?x0.0 = 10
          and ?y0.0 = 10 and ?x1.0 = 21 and ?y1.0 = 21]
  by (simp add: program_start_def le16_def)

section \<open>The dimensions on the handle\<close>

lemma bulk_dims:
  "libusb_bulk_transfer dev ep buf len tmo (set_dims w h s) =
     (fst (libusb_bulk_transfer dev ep buf len tmo s), set_dims w h (snd (libusb_bulk_transfer dev ep buf len tmo s)))"
  by (simp add: bulk_result set_dims_def)

lemma ack_read_dims:
  "wrap_scsi_ack_read dev (set_dims w h s) =
     (fst (wrap_scsi_ack_read dev s), set_dims w h (snd (wrap_scsi_ack_read dev s)))"
  by (simp add: wrap_scsi_ack_read_def bulk_result set_dims_def Let_def)

lemma ack_loop_dims:
  "wrap_scsi_ack_loop dev retry (set_dims w h s) = set_dims w h (wrap_scsi_ack_loop dev retry s)"
proof (induction "nat (5 - retry)" arbitrary: retry s)
  case 0
  then show ?case
    by (subst (1 2) ack_loop_unfold) (simp add: ack_read_dims)
next
  case (Suc n)
  then have "wrap_scsi_ack_loop dev (retry + 1) (set_dims w h (snd (wrap_scsi_ack_read dev s))) =
               set_dims w h (wrap_scsi_ack_loop dev (retry + 1) (snd (wrap_scsi_ack_read dev s)))"
    by simp
  then show ?case
    by (subst (1 2) ack_loop_unfold) (simp add: ack_read_dims)
qed

lemma status_dims:
  "wrap_scsi_status dev (set_dims w h s) =
     (fst (wrap_scsi_status dev s), set_dims w h (snd (wrap_scsi_status dev s)))"
  by (simp add: wrap_scsi_status_def ack_loop_dims Let_def) (simp add: set_dims_def)

lemma data_dims:
  "wrap_scsi_data dev out data bl (set_dims w h s) =
     (fst (wrap_scsi_data dev out data bl s), fst (snd (wrap_scsi_data dev out data bl s)),
      set_dims w h (snd (snd (wrap_scsi_data dev out data bl s))))"
  by (simp add: wrap_scsi_data_def bulk_result set_dims_def Let_def split: option.splits)

lemma wrap_scsi_dims:
  "wrap_scsi hnd cmd cmdlen out data bl (set_dims w h s) =
     map_option (\<lambda>(r, d, t). (r, d, set_dims w h t)) (wrap_scsi hnd cmd cmdlen out data bl s)"
proof (cases hnd)
  case None
  then show ?thesis by (simp add: wrap_scsi_def)
next
  case (Some ctx)
  show ?thesis
  proof (cases "memcpy ((g_buf s)[14 := word_of_int cmdlen]) 15 cmd 0 cmdlen")
    case None
    then show ?thesis by (simp add: wrap_scsi_def Some set_dims_def)
  next
    case (Some g0)
    define gb where "gb = g0[8 := ucast bl, 9 := ucast (drop_bit 8 bl),
                             10 := ucast (drop_bit 16 bl), 11 := ucast (drop_bit 24 bl)]"
    define s1 where "s1 = s\<lparr>g_buf := gb, trace := trace s @ [\<lparr>x_udev = udev ctx, x_endpoint = ENDPT_OUT, x_bytes = take 31 gb, x_length = 31, x_timeout = 1000\<rparr>]\<rparr>"
    have e: "(set_dims w h s)\<lparr>g_buf := gb, trace := trace (set_dims w h s) @ [\<lparr>x_udev = udev ctx, x_endpoint = ENDPT_OUT, x_bytes = take 31 gb, x_length = 31, x_timeout = 1000\<rparr>]\<rparr> = set_dims w h s1"
      by (simp add: set_dims_def s1_def)
    have g: "g_buf (set_dims w h s) = g_buf s" "device (set_dims w h s) = device s"
      "trace (set_dims w h s) = trace s"
      by (simp_all add: set_dims_def)
    have a: "wrap_scsi hnd cmd cmdlen out data bl s =
      (if r_ret (device s (length (trace s))) \<noteq> 0 then Some (r_ret (device s (length (trace s))), data, s1)
          else (case wrap_scsi_data (udev ctx) out data bl s1 of
                        (Some r, data', s2) \<Rightarrow> Some (r, data', s2)
                      | (None, data', s2) \<Rightarrow>
                          (let (r, s3) = wrap_scsi_status (udev ctx) s2 in Some (r, data', s3))))"
      by (simp add: wrap_scsi_def \<open>hnd = Some ctx\<close> Some bulk_result Let_def gb_def [symmetric] s1_def [symmetric])
    have b: "wrap_scsi hnd cmd cmdlen out data bl (set_dims w h s) =
      (if r_ret (device s (length (trace s))) \<noteq> 0 then Some (r_ret (device s (length (trace s))), data, set_dims w h s1)
          else (case wrap_scsi_data (udev ctx) out data bl (set_dims w h s1) of
                        (Some r, data', s2) \<Rightarrow> Some (r, data', s2)
                      | (None, data', s2) \<Rightarrow>
                          (let (r, s3) = wrap_scsi_status (udev ctx) s2 in Some (r, data', s3))))"
      using e
      by (simp add: wrap_scsi_def \<open>hnd = Some ctx\<close> g Some bulk_result Let_def gb_def [symmetric])
    show ?thesis
      unfolding a b
      by (simp add: data_dims status_dims split_beta split: option.splits)
  qed
qed

lemma wrap_scsi_handle_dims:
  "wrap_scsi (map_option (\<lambda>c. c\<lparr>width := w, height := h\<rparr>) hnd) cmd cmdlen out data bl s =
     wrap_scsi hnd cmd cmdlen out data bl s"
proof (cases hnd)
  case None
  then show ?thesis by simp
next
  case (Some a)
  have u: "udev (a\<lparr>width := w, height := h\<rparr>) = udev a" by simp
  show ?thesis
    unfolding Some option.map wrap_scsi_def option.case u by (rule refl)
qed

lemma blit_dims:
  "dpf_ax_screen_blit hnd buf rect (set_dims w h s) =
     map_option (\<lambda>(u, t). (u, set_dims w h t)) (dpf_ax_screen_blit hnd buf rect s)"
proof -
  have e: "(set_dims w h s)\<lparr>g_excmd := blit_cmd (g_excmd (set_dims w h s)) rect\<rparr> =
           set_dims w h (s\<lparr>g_excmd := blit_cmd (g_excmd s) rect\<rparr>)"
    by (simp add: set_dims_def)
  have g: "g_excmd (set_dims w h s) = g_excmd s" by (simp add: set_dims_def)
  show ?thesis
    unfolding dpf_ax_screen_blit_def Let_def e
    by (simp add: g wrap_scsi_dims split: option.splits)
qed

lemma blit_handle_dims:
  "dpf_ax_screen_blit (map_option (\<lambda>c. c\<lparr>width := w, height := h\<rparr>) hnd) buf rect s =
     dpf_ax_screen_blit hnd buf rect s"
  by (simp add: dpf_ax_screen_blit_def wrap_scsi_handle_dims)

lemma set_pixel_dims:
  "drv_set_pixel x y pix (set_dims w h s) = map_option (set_dims w h) (drv_set_pixel x y pix s)"
  by (simp add: drv_set_pixel_def set_dims_def Let_def)

lemma update_pixels_dims:
  "update_pixels cl cs (set_dims w h s) = map_option (set_dims w h) (update_pixels cl cs s)"
proof (induction cs arbitrary: s)
  case Nil
  then show ?case by simp
next
  case (Cons c cs)
  obtain lx ly where c: "c = (lx, ly)" by (cases c) auto
  have p: "pwidth (set_dims w h s) = pwidth s" by (simp add: set_dims_def)
  show ?case
    by (simp add: c p Let_def set_pixel_dims Cons.IH split: option.splits)
qed

lemma set_dims_fields:
  "minx (set_dims w h t) = minx t" "maxx (set_dims w h t) = maxx t"
  "miny (set_dims w h t) = miny t" "maxy (set_dims w h t) = maxy t"
  "pwidth (set_dims w h t) = pwidth t" "pheight (set_dims w h t) = pheight t"
  "lcdBuf (set_dims w h t) = lcdBuf t" "xferBuf (set_dims w h t) = xferBuf t"
  "dpfh (set_dims w h t) = map_option (\<lambda>c. c\<lparr>width := w, height := h\<rparr>) (dpfh t)"
  by (simp_all add: set_dims_def)

lemma flush_dims:
  "update_flush (set_dims w h s) = map_option (set_dims w h) (update_flush s)"
proof -
  have e: "\<And>xb. (set_dims w h s)\<lparr>xferBuf := xb\<rparr> = set_dims w h (s\<lparr>xferBuf := xb\<rparr>)"
    by (simp add: set_dims_def)
  have r: "\<And>t. (set_dims w h t)\<lparr>minx := pwidth t - 1, maxx := 0,
                 miny := pheight t - 1, maxy := 0\<rparr> =
              set_dims w h (t\<lparr>minx := pwidth t - 1, maxx := 0, miny := pheight t - 1, maxy := 0\<rparr>)"
    by (simp add: set_dims_def)
  show ?thesis
    by (simp add: update_flush_def Let_def e set_dims_fields blit_dims blit_handle_dims r
          split: option.splits)
qed

lemma update_dims:
  "update cl x y uw uh (set_dims w h s) = map_option (set_dims w h) (update cl x y uw uh s)"
  by (simp add: update_def update_pixels_dims flush_dims split: option.splits)

lemma main_init_dims:
  "main_init (c\<lparr>width := w, height := h\<rparr>) s = set_dims w h (main_init c s)"
  by (simp add: main_init_def set_dims_def Let_def)

lemma set_pixel_cases:
  assumes "drv_set_pixel x y pix s = Some s'"
  obtains (logged) e where "s' = s\<lparr>logged := logged s @ [e]\<rparr>"
  | (same) "s' = s"
  | (changed) buf where "0 \<le> x smod DCOLS s" "x smod DCOLS s < pwidth s"
      "0 \<le> y smod DROWS s" "y smod DROWS s < pheight s" "length buf = length (lcdBuf s)"
      "s' = s\<lparr>lcdBuf := buf,
              minx := (if x smod DCOLS s < minx s then x smod DCOLS s else minx s),
              maxx := (if x smod DCOLS s > maxx s then x smod DCOLS s else maxx s),
              miny := (if y smod DROWS s < miny s then y smod DROWS s else miny s),
              maxy := (if y smod DROWS s > maxy s then y smod DROWS s else maxy s)\<rparr>"
proof -
  define lx where "lx = x smod DCOLS s"
  define ly where "ly = y smod DROWS s"
  define i where "i = (ly * pwidth s + lx) * DPF_BPP"
  have nz: "\<not> (DCOLS s = 0 \<or> DROWS s = 0)"
    using assms by (auto simp add: drv_set_pixel_def)
  show ?thesis
  proof (cases "lx < 0 \<or> lx \<ge> pwidth s \<or> ly < 0 \<or> ly \<ge> pheight s")
    case True
    then have "s' = s\<lparr>logged := logged s @ [Err_out_of_bounds x y lx ly]\<rparr>"
      using assms nz
      unfolding drv_set_pixel_def Let_def lx_def [symmetric] ly_def [symmetric]
      by simp
    then show ?thesis by (rule logged)
  next
    case False
    then have u: "(if i < 0 \<or> int (length (lcdBuf s)) \<le> i + 1 then None
               else if lcdBuf s ! nat i \<noteq> RGB565_0 pix \<or> lcdBuf s ! nat (i + 1) \<noteq> RGB565_1 pix
               then Some (s\<lparr>lcdBuf := (lcdBuf s)[nat i := RGB565_0 pix, nat (i + 1) := RGB565_1 pix],
                            minx := (if lx < minx s then lx else minx s),
                            maxx := (if lx > maxx s then lx else maxx s),
                            miny := (if ly < miny s then ly else miny s),
                            maxy := (if ly > maxy s then ly else maxy s)\<rparr>)
               else Some s) = Some s'"
      using assms nz
      unfolding drv_set_pixel_def Let_def lx_def [symmetric] ly_def [symmetric] i_def [symmetric]
      by simp
    show ?thesis
    proof (cases "lcdBuf s ! nat i \<noteq> RGB565_0 pix \<or> lcdBuf s ! nat (i + 1) \<noteq> RGB565_1 pix")
      case True
      with u have "s' = s\<lparr>lcdBuf := (lcdBuf s)[nat i := RGB565_0 pix, nat (i + 1) := RGB565_1 pix],
                            minx := (if lx < minx s then lx else minx s),
                            maxx := (if lx > maxx s then lx else maxx s),
                            miny := (if ly < miny s then ly else miny s),
                            maxy := (if ly > maxy s then ly else maxy s)\<rparr>"
        by (simp split: if_splits)
      then show ?thesis
        using False by (intro changed [of "(lcdBuf s)[nat i := RGB565_0 pix, nat (i + 1) := RGB565_1 pix]"])
          (simp_all add: lx_def ly_def)
    next
      case False
      with u have "s' = s" by (simp split: if_splits)
      then show ?thesis by (rule same)
    qed
  qed
qed

lemma set_pixel_inv:
  assumes "session_inv s" "drv_set_pixel x y pix s = Some s'"
  shows "session_inv s'"
  using assms(2)
proof (cases rule: set_pixel_cases)
  case (logged e)
  then show ?thesis using assms(1) by (simp add: session_inv_def statics_ok_def)
next
  case same
  then show ?thesis using assms(1) by simp
next
  case (changed buf)
  have "pwidth s = 480" "pheight s = 320" using assms(1) by (simp_all add: session_inv_def)
  with changed(1-5) assms(1) show ?thesis
    unfolding changed(6) by (simp add: session_inv_def statics_ok_def)
qed

lemma update_pixels_inv:
  "session_inv s \<Longrightarrow> update_pixels cl cs s = Some s' \<Longrightarrow> session_inv s'"
proof (induction cs arbitrary: s)
  case Nil
  then show ?case by simp
next
  case (Cons c cs)
  obtain lx ly where c: "c = (lx, ly)" by (cases c) auto
  from Cons.prems(2) obtain s1 where
    d: "drv_set_pixel lx ly \<lparr>R = frameBuffer cl ! nat ((ly * pwidth s + lx) * 4),
          G = frameBuffer cl ! nat ((ly * pwidth s + lx) * 4 + 1),
          B = frameBuffer cl ! nat ((ly * pwidth s + lx) * 4 + 2), A = 0\<rparr> s = Some s1"
    and r: "update_pixels cl cs s1 = Some s'"
    by (auto simp add: c Let_def split: if_splits option.splits)
  have "session_inv s1" using Cons.prems(1) d by (rule set_pixel_inv)
  then show ?case using r by (rule Cons.IH)
qed

lemma flush_inv:
  assumes "session_inv s" "update_flush s = Some s'"
  shows "session_inv s'"
proof (cases "minx s > maxx s \<or> miny s > maxy s")
  case True
  then have "update_flush s = Some s" by (simp add: update_flush_def)
  with assms show ?thesis by simp
next
  case False
  then show ?thesis
    using flush_result [of s] assms by auto
qed

lemma update_inv:
  "session_inv s \<Longrightarrow> update cl x y w h s = Some s' \<Longrightarrow> session_inv s'"
  by (auto simp add: update_def split: option.splits dest: update_pixels_inv flush_inv)

lemma data_in_buffer:
  assumes "out \<noteq> DIR_OUT" "length buf = 5" "length (r_data (device s (length (trace s)))) = 5"
  shows "fst (snd (wrap_scsi_data dev out (Some buf) 5 s)) = Some (r_data (device s (length (trace s))))"
  using assms by (simp add: wrap_scsi_data_def bulk_result Let_def)

lemma wrap_scsi_read_dimensions:
  assumes "statics_ok s" "nat 16 \<le> length cmd"
    and "r_ret (device s (length (trace s))) = 0"
    and "device s (Suc (length (trace s))) = \<lparr>r_ret = 0, r_actual = 5, r_data = d\<rparr>" "length d = 5"
    and "length buf = 5"
  shows "\<exists>s2. transport_frame s s2 \<and> length (trace s2) = length (trace s) + 2 \<and>
           wrap_scsi (Some ctx) cmd 16 DIR_IN (Some buf) 5 s =
             Some (fst (wrap_scsi_status (udev ctx) s2), Some d, snd (wrap_scsi_status (udev ctx) s2))"
proof -
  obtain gb where gb: "length gb = 31"
    and w: "wrap_scsi (Some ctx) cmd 16 DIR_IN (Some buf) 5 s =
      (let s1 = s\<lparr>g_buf := gb, trace := trace s @ [\<lparr>x_udev = udev ctx, x_endpoint = ENDPT_OUT, x_bytes = gb, x_length = 31, x_timeout = 1000\<rparr>]\<rparr>
       in if r_ret (device s (length (trace s))) \<noteq> 0 then Some (r_ret (device s (length (trace s))), Some buf, s1)
          else (case wrap_scsi_data (udev ctx) DIR_IN (Some buf) 5 s1 of
                        (Some r, data', s2) \<Rightarrow> Some (r, data', s2)
                      | (None, data', s2) \<Rightarrow>
                          (let (r, s3) = wrap_scsi_status (udev ctx) s2 in Some (r, data', s3))))"
    using assms(1) _ _ assms(2) by (rule wrap_scsi_unfold) simp_all
  define s1 where "s1 = s\<lparr>g_buf := gb, trace := trace s @ [\<lparr>x_udev = udev ctx, x_endpoint = ENDPT_OUT, x_bytes = gb, x_length = 31, x_timeout = 1000\<rparr>]\<rparr>"
  have f1: "transport_frame s s1"
    using assms(1) gb by (simp add: s1_def transport_frame_def statics_ok_def)
  have s1: "device s1 = device s" "length (trace s1) = Suc (length (trace s))"
    by (simp_all add: s1_def)
  obtain e d' s2 where dp: "wrap_scsi_data (udev ctx) DIR_IN (Some buf) 5 s1 = (e, d', s2)"
    by (cases "wrap_scsi_data (udev ctx) DIR_IN (Some buf) 5 s1") auto
  have e: "e = None"
    using data_ok(1) [of "Some buf" s1 5 "udev ctx" DIR_IN] assms(4) dp by (simp add: s1)
  have tr2: "length (trace s2) = length (trace s) + 2"
    using data_ok(2) [of "Some buf" s1 5 "udev ctx" DIR_IN] assms(4) dp by (simp add: s1)
  have f2: "transport_frame s1 s2"
    using data_frame [of s1 "udev ctx" DIR_IN "Some buf" 5] dp by simp
  have d': "d' = Some d"
    using data_in_buffer [of DIR_IN buf s1 "udev ctx"] assms(4,5,6) dp
    by (simp add: s1 DIR_IN_def DIR_OUT_def)
  have "wrap_scsi (Some ctx) cmd 16 DIR_IN (Some buf) 5 s =
             Some (fst (wrap_scsi_status (udev ctx) s2), Some d, snd (wrap_scsi_status (udev ctx) s2))"
    unfolding w Let_def s1_def [symmetric]
    by (simp add: assms(3) dp e d' split_beta)
  with f1 f2 tr2 show ?thesis
    by (blast intro: transport_frame_trans)
qed

lemma open_stores_dimensions:
  assumes "statics_ok s"
    and "r_ret (device s (length (trace s))) = 0"
    and "device s (length (trace s) + 1) = \<lparr>r_ret = 0, r_actual = 5, r_data = d\<rparr>" "length d = 5"
    and "k < 5" "\<forall>j<k. status_failed (device s (length (trace s) + 2 + j))"
    and "device s (length (trace s) + 2 + k) = \<lparr>r_ret = 0, r_actual = 13, r_data = p\<rparr>" "length p = 13"
  shows "map_option fst (dpf_ax_open u s) =
           Some (if take 4 p = [0x55, 0x53, 0x42, 0x53] \<and> p ! 12 = 0
                 then Some \<lparr>udev = u, width = ucast (d ! 0) OR push_bit 8 (ucast (d ! 1)),
                             height = ucast (d ! 2) OR push_bit 8 (ucast (d ! 3))\<rparr>
                 else None)"
proof -
  let ?dpf = "\<lparr>udev = u, width = 0, height = 0\<rparr>"
  let ?cmd = "[0xcd, 0, 0, 0, 0, 2, 0, 0, 0, 0, 0, 0, 0, 0, 0, 0] :: byte list"
  obtain s2 where fr: "transport_frame s s2" and tr: "length (trace s2) = length (trace s) + 2"
    and w: "wrap_scsi (Some ?dpf) ?cmd 16 DIR_IN (Some [0, 0, 0, 0, 0]) 5 s =
             Some (fst (wrap_scsi_status (udev ?dpf) s2), Some d, snd (wrap_scsi_status (udev ?dpf) s2))"
    using wrap_scsi_read_dimensions [OF assms(1), of ?cmd d "[0, 0, 0, 0, 0]" ?dpf] assms(2,3,4)
    by auto
  have s2: "device s2 = device s" "length (ansbuf s2) = 13"
    using fr assms(1) by (simp_all add: transport_frame_def statics_ok_def)
  have r: "fst (wrap_scsi_status u s2) =
          (if take 4 p = [0x55, 0x53, 0x42, 0x53] then uint (p ! 12) else - 1)"
    using assms(5-8) by (intro status_acked(1) [where k = k]) (simp_all add: s2 tr status_failed_def)
  have z: "uint (p ! 12) = 0 \<longleftrightarrow> p ! 12 = 0"
    by (simp add: uint_0_iff)
  show ?thesis
    unfolding dpf_ax_open_def Let_def w
    by (simp add: r z)
qed

lemma open_statics:
  assumes "statics_ok s" "dpf_ax_open u s = Some (hd', s')"
  shows "statics_ok s'"
proof -
  from assms(2) obtain r dat s1 where
    w: "wrap_scsi (Some \<lparr>udev = u, width = 0, height = 0\<rparr>)
          [0xcd, 0, 0, 0, 0, 2, 0, 0, 0, 0, 0, 0, 0, 0, 0, 0] 16 DIR_IN (Some [0, 0, 0, 0, 0]) 5 s =
        Some (r, dat, s1)"
    by (cases "wrap_scsi (Some \<lparr>udev = u, width = 0, height = 0\<rparr>)
          [0xcd, 0, 0, 0, 0, 2, 0, 0, 0, 0, 0, 0, 0, 0, 0, 0] 16 DIR_IN (Some [0, 0, 0, 0, 0]) 5 s")
       (auto simp add: dpf_ax_open_def Let_def)
  then have "transport_frame s s1" by (rule wrap_scsi_frame)
  then have "statics_ok s1" using assms(1) by (rule transport_frame_statics)
  moreover have "\<exists>l. s' = s1\<lparr>logged := l\<rparr>"
    using assms(2) unfolding dpf_ax_open_def Let_def w
    by (auto split: if_splits)
  ultimately show ?thesis by (auto simp add: statics_ok_def)
qed

text \<open>
  Claim C4. \<open>dpf_ax_open\<close> stores on the handle the width and height the panel
  returns: when the "get LCD parameters" command delivers the five bytes \<open>d\<close> and a
  status read within the five attempts delivers \<open>p\<close>, the handle carries
  \<open>d[0] | d[1] << 8\<close> and \<open>d[2] | d[3] << 8\<close> if \<open>p\<close> has the signature and return
  code 0, and no handle is returned otherwise. Whatever dimensions the handle carries,
  \<open>main\<close> then keeps that handle, sets the panel size to 480 by 320 and allocates both
  buffers with \<open>480 * 320 * 2\<close> bytes, and every state that \<open>update\<close> returns in a
  session still satisfies the session invariant. In a session, \<open>drv_set_pixel\<close>
  rejects the reduced coordinates outside 480 by 320 and writes the pixel at
  coordinates inside, and a flush resets the rectangle to \<open>(479, 0, 319, 0)\<close>. The
  dimensions on the handle are never read: changing them changes nothing in what
  \<open>main\<close>'s initialisation, \<open>update\<close> and \<open>drv_set_pixel\<close> compute, except the handle.
\<close>

theorem panel_size_is_hardcoded:
  assumes "statics_ok s" "session_inv t"
  shows "session_inv (main_init c s)
     \<and> pwidth (main_init c s) = 480 \<and> pheight (main_init c s) = 320
     \<and> length (lcdBuf (main_init c s)) = 480 * 320 * 2
     \<and> length (xferBuf (main_init c s)) = 480 * 320 * 2
     \<and> main_init (c\<lparr>width := w, height := h\<rparr>) s = set_dims w h (main_init c s)
     \<and> (case update cl x y uw uh t of None \<Rightarrow> True | Some t' \<Rightarrow> session_inv t')
     \<and> update cl x y uw uh (set_dims w h t) = map_option (set_dims w h) (update cl x y uw uh t)
     \<and> drv_set_pixel px py pix (set_dims w h t) = map_option (set_dims w h) (drv_set_pixel px py pix t)
     \<and> (px smod 480 < 0 \<or> 480 \<le> px smod 480 \<or> py smod 320 < 0 \<or> 320 \<le> py smod 320 \<longrightarrow>
          drv_set_pixel px py pix t =
            Some (t\<lparr>logged := logged t @ [Err_out_of_bounds px py (px smod 480) (py smod 320)]\<rparr>))
     \<and> (in_panel px py \<longrightarrow>
          (\<exists>t'. drv_set_pixel px py pix t = Some t' \<and> stored t' px py = (RGB565_0 pix, RGB565_1 pix)))
     \<and> (minx t \<le> maxx t \<and> miny t \<le> maxy t \<longrightarrow>
          map_option (\<lambda>t'. (minx t', maxx t', miny t', maxy t')) (update_flush t) = Some (479, 0, 319, 0))
     \<and> (statics_ok s0 \<and> r_ret (device s0 (length (trace s0))) = 0 \<and>
          device s0 (length (trace s0) + 1) = \<lparr>r_ret = 0, r_actual = 5, r_data = d\<rparr> \<and> length d = 5 \<and>
          k < 5 \<and> (\<forall>j<k. status_failed (device s0 (length (trace s0) + 2 + j))) \<and>
          device s0 (length (trace s0) + 2 + k) = \<lparr>r_ret = 0, r_actual = 13, r_data = p\<rparr> \<and>
          length p = 13 \<longrightarrow>
          map_option fst (dpf_ax_open u s0) =
            Some (if take 4 p = [0x55, 0x53, 0x42, 0x53] \<and> p ! 12 = 0
                  then Some \<lparr>udev = u, width = ucast (d ! 0) OR push_bit 8 (ucast (d ! 1)),
                              height = ucast (d ! 2) OR push_bit 8 (ucast (d ! 3))\<rparr>
                  else None))
     \<and> (statics_ok s0 \<and> dpf_ax_open u s0 = Some (Some hnd, s1) \<longrightarrow>
          session_inv (main_init hnd s1) \<and> dpfh (main_init hnd s1) = Some hnd)"
proof -
  have inv: "pwidth t = 480" "pheight t = 320" "DCOLS t = 480" "DROWS t = 320"
    using assms(2) by (simp_all add: session_inv_def)
  have "session_inv (main_init c s)" using assms(1) by (rule main_init_inv)
  moreover have "pwidth (main_init c s) = 480 \<and> pheight (main_init c s) = 320
     \<and> length (lcdBuf (main_init c s)) = 480 * 320 * 2
     \<and> length (xferBuf (main_init c s)) = 480 * 320 * 2"
    by (simp add: main_init_def Let_def DPF_BPP_def)
  moreover have "case update cl x y uw uh t of None \<Rightarrow> True | Some t' \<Rightarrow> session_inv t'"
    using update_inv [OF assms(2)] by (simp split: option.splits)
  moreover have "px smod 480 < 0 \<or> 480 \<le> px smod 480 \<or> py smod 320 < 0 \<or> 320 \<le> py smod 320 \<longrightarrow>
          drv_set_pixel px py pix t =
            Some (t\<lparr>logged := logged t @ [Err_out_of_bounds px py (px smod 480) (py smod 320)]\<rparr>)"
    by (simp add: drv_set_pixel_def Let_def inv)
  moreover have "in_panel px py \<longrightarrow>
          (\<exists>t'. drv_set_pixel px py pix t = Some t' \<and> stored t' px py = (RGB565_0 pix, RGB565_1 pix))"
    using set_pixel_step [OF assms(2), of px py pix] by blast
  moreover have "minx t \<le> maxx t \<and> miny t \<le> maxy t \<longrightarrow>
          map_option (\<lambda>t'. (minx t', maxx t', miny t', maxy t')) (update_flush t) = Some (479, 0, 319, 0)"
    using flush_result [OF assms(2)] by auto
  moreover have "statics_ok s0 \<and> r_ret (device s0 (length (trace s0))) = 0 \<and>
          device s0 (length (trace s0) + 1) = \<lparr>r_ret = 0, r_actual = 5, r_data = d\<rparr> \<and> length d = 5 \<and>
          k < 5 \<and> (\<forall>j<k. status_failed (device s0 (length (trace s0) + 2 + j))) \<and>
          device s0 (length (trace s0) + 2 + k) = \<lparr>r_ret = 0, r_actual = 13, r_data = p\<rparr> \<and>
          length p = 13 \<longrightarrow>
          map_option fst (dpf_ax_open u s0) =
            Some (if take 4 p = [0x55, 0x53, 0x42, 0x53] \<and> p ! 12 = 0
                  then Some \<lparr>udev = u, width = ucast (d ! 0) OR push_bit 8 (ucast (d ! 1)),
                              height = ucast (d ! 2) OR push_bit 8 (ucast (d ! 3))\<rparr>
                  else None)"
    using open_stores_dimensions [of s0 d k p u] by blast
  moreover have "statics_ok s0 \<and> dpf_ax_open u s0 = Some (Some hnd, s1) \<longrightarrow>
          session_inv (main_init hnd s1) \<and> dpfh (main_init hnd s1) = Some hnd"
    using open_statics [of s0 u "Some hnd" s1] main_init_inv [of s1 hnd]
    by (auto simp add: main_init_def Let_def)
  ultimately show ?thesis
    by (simp add: main_init_dims update_dims set_pixel_dims)
qed

lemma unplugged_handle:
  "dpfh unplugged_session = Some \<lparr>udev = 0, width = 128, height = 128\<rparr>"
  "length (xferBuf unplugged_session) = 307200"
  by (simp_all add: unplugged_session_def main_init_def Let_def DPF_BPP_def)

theorem panel_size_is_hardcoded_witness:
  "statics_ok (program_start (script_of [])) \<and> session_inv unplugged_session \<and>
   dpfh unplugged_session = Some \<lparr>udev = 0, width = 128, height = 128\<rparr> \<and>
   pwidth unplugged_session = 480 \<and> pheight unplugged_session = 320 \<and>
   length (lcdBuf unplugged_session) = 307200 \<and> length (xferBuf unplugged_session) = 307200 \<and>
   drv_set_pixel 479 319 \<lparr>R = 255, G = 255, B = 255, A = 255\<rparr> (set_dims 480 320 unplugged_session) =
     map_option (set_dims 480 320)
       (drv_set_pixel 479 319 \<lparr>R = 255, G = 255, B = 255, A = 255\<rparr> unplugged_session) \<and>
   statics_ok (program_start (script_of small_panel)) \<and>
   map_option fst (dpf_ax_open 0 (program_start (script_of small_panel))) =
     Some (Some \<lparr>udev = 0, width = 128, height = 128\<rparr>)"
  using panel_size_is_hardcoded [where s = "program_start (script_of [])" and t = unplugged_session
              and c = "\<lparr>udev = 0, width = 128, height = 128\<rparr>" and w = 480 and h = 320
              and cl = "\<lparr>frameBuffer = []\<rparr>" and x = 0 and y = 0 and uw = 0 and uh = 0
              and px = 479 and py = 319 and pix = "\<lparr>R = 255, G = 255, B = 255, A = 255\<rparr>"
              and ?s0.0 = "program_start (script_of small_panel)" and u = 0 and k = 0
              and d = "[0x80, 0, 0x80, 0, 0]"
              and p = "[0x55, 0x53, 0x42, 0x53, 0, 0, 0, 0, 0, 0, 0, 0, 0]"]
    statics_start [of "script_of []"] statics_start [of "script_of small_panel"] unplugged_inv
  unfolding unplugged_session_def [symmetric]
  by (simp add: unplugged_fields unplugged_handle)
     (simp add: program_start_def script_of_def small_panel_def)

end
